theory Spec2Isabelle
  imports Main
begin

section \<open>Values and errors\<close>

text \<open>
  The command layer of the tool (\<^verbatim>\<open>packages/cli/src.ts/cli.ts\<close>) raises two kinds of
  exception: \<^verbatim>\<open>UsageError\<close> (a subclass of \<^verbatim>\<open>Error\<close>) and plain \<^verbatim>\<open>Error\<close>.
  Both carry a message.
\<close>

datatype error = UsageError string | Error string

text \<open>
  A JavaScript value that is a string, \<^verbatim>\<open>undefined\<close> or \<^verbatim>\<open>null\<close>: what reading a
  token array by index and \<^verbatim>\<open>consumeOption\<close> can produce.
\<close>

datatype jsval = Str string | Undefined | Null

text \<open>Truthiness as used by \<^verbatim>\<open>if (x)\<close> and \<^verbatim>\<open>x || d\<close>: the empty string is falsy.\<close>

fun truthy :: "jsval \<Rightarrow> bool" where
  "truthy (Str s) = (s \<noteq> [])"
| "truthy Undefined = False"
| "truthy Null = False"

text \<open>Reading \<^verbatim>\<open>xs[i]\<close> of a string array: \<^verbatim>\<open>undefined\<close> past the end.\<close>

definition aget :: "string list \<Rightarrow> nat \<Rightarrow> jsval" where
  "aget xs i = (if i < length xs then Str (xs ! i) else Undefined)"

text \<open>
  Writing \<^verbatim>\<open>xs[i] = v\<close> of a boolean array: past the end JavaScript extends the array,
  and the holes it leaves read as \<^verbatim>\<open>undefined\<close>, which every test of the array
  treats as false.
\<close>

definition aset :: "bool list \<Rightarrow> nat \<Rightarrow> bool \<Rightarrow> bool list" where
  "aset xs i v =
     (if i < length xs then xs[i := v]
      else xs @ replicate (i - length xs) False @ [v])"

text \<open>\<^verbatim>\<open>xs.indexOf(x)\<close>: the first position of \<open>x\<close>, or \<open>-1\<close>.\<close>

fun indexOf :: "'a list \<Rightarrow> 'a \<Rightarrow> int" where
  "indexOf [] x = -1"
| "indexOf (y # ys) x =
     (if y = x then 0 else (let k = indexOf ys x in if k < 0 then -1 else k + 1))"

section \<open>Argument parser\<close>

text \<open>
  \<^verbatim>\<open>class ArgParser\<close>: the tokens \<^verbatim>\<open>_args\<close> and the marks \<^verbatim>\<open>_consumed\<close>. The
  constructor marks every token unconsumed.
\<close>

record ArgParser =
  args :: "string list"
  consumed :: "bool list"

definition new_ArgParser :: "string list \<Rightarrow> ArgParser" where
  "new_ArgParser as = \<lparr>args = as, consumed = map (\<lambda>a. False) as\<rparr>"

text \<open>
  The loop of \<^verbatim>\<open>consumeFlag\<close>, from index \<open>i\<close>, with the running \<open>count\<close> and marks.
  It stops at a token \<^verbatim>\<open>"--"\<close>. It does not look at the marks.
\<close>

function consumeFlag_loop ::
  "string \<Rightarrow> string list \<Rightarrow> nat \<Rightarrow> nat \<Rightarrow> bool list \<Rightarrow> nat \<times> bool list" where
  "consumeFlag_loop name as i count cs =
     (if i < length as then
        (let arg = as ! i in
         if arg = ''--'' then (count, cs)
         else if arg = ''--'' @ name
           then consumeFlag_loop name as (i + 1) (count + 1) (aset cs i True)
           else consumeFlag_loop name as (i + 1) count cs)
      else (count, cs))"
  by pat_completeness auto
termination
  by (relation "measure (\<lambda>(name, as, i, count, cs). length as - i)") auto

declare consumeFlag_loop.simps [simp del]

definition consumeFlag :: "string \<Rightarrow> ArgParser \<Rightarrow> error + (bool \<times> ArgParser)" where
  "consumeFlag name p =
     (case consumeFlag_loop name (args p) 0 0 (consumed p) of
        (count, cs) \<Rightarrow>
          if count > 1 then Inl (UsageError ''expected at most one --${name}'')
          else Inr (count = 1, p\<lparr>consumed := cs\<rparr>))"

text \<open>
  The loop of \<^verbatim>\<open>consumeMultiOptions\<close>. A matching option token at index \<open>i\<close> is
  marked, the token at \<open>i + 1\<close> is read as its value (\<^verbatim>\<open>this._args[++i]\<close>) and marked
  too, and the scan goes on at \<open>i + 2\<close>. The test before the marking compares the
  number of tokens with \<open>i\<close> itself.
\<close>

function consumeMultiOptions_loop ::
  "string list \<Rightarrow> string list \<Rightarrow> nat \<Rightarrow> bool list \<Rightarrow> (string \<times> jsval) list
     \<Rightarrow> error + (bool list \<times> (string \<times> jsval) list)" where
  "consumeMultiOptions_loop names as i cs result =
     (if i < length as then
        (let arg = as ! i in
         if arg = ''--'' then Inr (cs, result)
         else if take 2 arg = ''--'' then
           (let name = drop 2 arg; index = indexOf names name in
            if index < 0 then consumeMultiOptions_loop names as (i + 1) cs result
            else if length as = i then Inl (UsageError ''missing argument for --${name}'')
            else
              (let cs1 = aset cs i True;
                   result1 = result @ [(name, aget as (i + 1))];
                   cs2 = aset cs1 (i + 1) True
               in consumeMultiOptions_loop names as (i + 2) cs2 result1))
         else consumeMultiOptions_loop names as (i + 1) cs result)
      else Inr (cs, result))"
  by pat_completeness auto
termination
  by (relation "measure (\<lambda>(names, as, i, cs, result). length as - i)") auto

declare consumeMultiOptions_loop.simps [simp del]

definition consumeMultiOptions ::
  "string list \<Rightarrow> ArgParser \<Rightarrow> error + ((string \<times> jsval) list \<times> ArgParser)" where
  "consumeMultiOptions names p =
     (case consumeMultiOptions_loop names (args p) 0 (consumed p) [] of
        Inl e \<Rightarrow> Inl e
      | Inr (cs, result) \<Rightarrow> Inr (result, p\<lparr>consumed := cs\<rparr>))"

definition consumeOptions :: "string \<Rightarrow> ArgParser \<Rightarrow> error + (jsval list \<times> ArgParser)" where
  "consumeOptions name p =
     (case consumeMultiOptions [name] p of
        Inl e \<Rightarrow> Inl e
      | Inr (result, p') \<Rightarrow> Inr (map snd result, p'))"

definition consumeOption :: "string \<Rightarrow> ArgParser \<Rightarrow> error + (jsval \<times> ArgParser)" where
  "consumeOption name p =
     (case consumeOptions name p of
        Inl e \<Rightarrow> Inl e
      | Inr (options, p') \<Rightarrow>
          if length options > 1 then Inl (UsageError (''expected at most one --'' @ name))
          else Inr (if length options \<noteq> 0 then options ! 0 else Null, p'))"

subsection \<open>Auxiliary notions for the parser proofs\<close>

text \<open>A mark reads as true only inside the array and where it is set.\<close>

definition aread :: "bool list \<Rightarrow> nat \<Rightarrow> bool" where
  "aread cs k = (k < length cs \<and> cs ! k)"

text \<open>
  The indices that the loop of \<^verbatim>\<open>consumeFlag\<close> hits in a token list whose first
  token has index \<open>i\<close>, and the marking of a list of indices.
\<close>

fun flag_hits :: "string \<Rightarrow> string list \<Rightarrow> nat \<Rightarrow> nat list" where
  "flag_hits name [] i = []"
| "flag_hits name (a # as) i =
     (if a = ''--'' then []
      else if a = ''--'' @ name then i # flag_hits name as (Suc i)
      else flag_hits name as (Suc i))"

definition mark_all :: "nat list \<Rightarrow> bool list \<Rightarrow> bool list" where
  "mark_all ks cs = fold (\<lambda>k cs. aset cs k True) ks cs"

section \<open>Collaborators and effects\<close>

text \<open>
  The signer proxy, the account loader and the options pipeline talk to a terminal, the
  file system, providers and real signers. Those collaborators are parameters of the
  model: a provider and a signer are records of what their calls answer, the library
  functions are the fields of an environment record, and every observable effect is
  appended to a trace.
\<close>

record Network =
  chainId :: nat
  net_name :: string

record Provider =
  getNetwork :: "error + Network"
  resolveName :: "jsval \<Rightarrow> error + string"

text \<open>
  A transaction request: \<^verbatim>\<open>to\<close>, \<^verbatim>\<open>from\<close>, \<^verbatim>\<open>value\<close>, \<^verbatim>\<open>nonce\<close>,
  \<^verbatim>\<open>gasLimit\<close>, \<^verbatim>\<open>gasPrice\<close>, \<^verbatim>\<open>chainId\<close>, \<^verbatim>\<open>data\<close>, each possibly absent.
\<close>

record TransactionRequest =
  tx_to :: "string option"
  tx_from :: "string option"
  tx_value :: "int option"
  tx_nonce :: "nat option"
  tx_gasLimit :: "int option"
  tx_gasPrice :: "int option"
  tx_chainId :: "nat option"
  tx_data :: "string option"

record TransactionResponse =
  response_hash :: string

datatype message = Text string | Bytes "nat list"

text \<open>The real signer (\<^verbatim>\<open>ethers.Signer\<close>): what each of its calls answers.\<close>

record Signer =
  signer_getAddress :: "error + string"
  signer_signMessage :: "message \<Rightarrow> error + string"
  signer_signTransaction :: "TransactionRequest \<Rightarrow> error + string"
  signer_populateTransaction :: "TransactionRequest \<Rightarrow> error + TransactionRequest"
  signer_sendTransaction :: "TransactionRequest \<Rightarrow> error + TransactionResponse"

record Signature =
  sig_r :: string
  sig_s :: string
  sig_vs :: string
  sig_v :: nat
  sig_recoveryParam :: nat

text \<open>
  The factory handed to a wrapped signer is one of two closures: one that returns an
  already settled promise (\<^verbatim>\<open>() => Promise.resolve(signer)\<close>, \<^verbatim>\<open>() => signerPromise\<close>),
  and the one \<^verbatim>\<open>loadAccount\<close> builds for a JSON wallet, which asks for the password of
  the file \<open>arg\<close> and decrypts \<open>content\<close>.
\<close>

datatype signerFunc =
    Settled "error + Signer"
  | DecryptJsonWallet jsval string Provider

datatype signer_call = SignMessage | SignTransaction | PopulateTransaction | SendTransaction

datatype info_value = IStr string | INum int

datatype event =
    Log string
  | Dump string "(string \<times> info_value) list"
  | ChoicePrompt string
  | PasswordPrompt string
  | ProgressBar string
  | SignerFuncCall nat
  | SignerCall nat signer_call

text \<open>
  The state: the three module-level weak maps, keyed by the identity of the wrapper
  object; what the user will answer to the coming prompts; the trace; and the next
  fresh object identity.
\<close>

record world =
  signerFuncs :: "nat \<rightharpoonup> signerFunc"
  signers :: "nat \<rightharpoonup> Signer"
  alwaysAllow :: "nat \<rightharpoonup> string list"
  choice_script :: "string option list"
  password_script :: "string option list"
  trace :: "event list"
  next_id :: nat

text \<open>
  \<^verbatim>\<open>class WrappedSigner\<close>. \<open>wid\<close> is the identity of the object. The \<^verbatim>\<open>plugin\<close>
  field is a reference to the execution context; the wrapper reads only its \<^verbatim>\<open>yes\<close>
  field, which \<^verbatim>\<open>prepareOptions\<close> assigns before it constructs any wrapper and nothing
  assigns afterwards, so the model keeps the value.
\<close>

record WrappedSigner =
  wid :: nat
  addressPromise :: "error + string"
  w_provider :: Provider
  plugin_yes :: bool

text \<open>
  What JavaScript's \<^verbatim>\<open>parseInt\<close> returns on a string of decimal digits: a double
  that is a natural number (the double nearest to the number written, which is another
  number from \<open>2\<^sup>5\<^sup>3 + 1\<close> on), or \<^verbatim>\<open>Infinity\<close>.
\<close>

datatype js_number = Integral nat | PositiveInfinity

text \<open>
  The library functions of \<^verbatim>\<open>ethers\<close> and \<^verbatim>\<open>fs\<close> that the code calls, and
  \<^verbatim>\<open>parseInt\<close>.
\<close>

record env =
  JSON_stringify :: "string \<Rightarrow> string"
  hexlify_utf8 :: "string \<Rightarrow> string"
  toUtf8String :: "nat list \<Rightarrow> string"
  hexlify_bytes :: "nat list \<Rightarrow> string"
  hexlify :: "string \<Rightarrow> error + string"
  formatEther :: "int \<Rightarrow> string"
  formatUnits_gwei :: "int \<Rightarrow> string"
  resolveProperties :: "TransactionRequest \<Rightarrow> error + TransactionRequest"
  splitSignature :: "string \<Rightarrow> error + Signature"
  isHexString32 :: "jsval \<Rightarrow> bool"
  isValidMnemonic :: "jsval \<Rightarrow> bool"
  new_Wallet :: "jsval \<Rightarrow> Provider \<Rightarrow> error + Signer"
  Wallet_fromMnemonic :: "jsval \<Rightarrow> Provider \<Rightarrow> error + Signer"
  Wallet_fromEncryptedJson :: "string \<Rightarrow> string \<Rightarrow> Provider \<Rightarrow> error + Signer"
  readFileSync :: "jsval \<Rightarrow> error + string"
  getJsonWalletAddress :: "string \<Rightarrow> error + string option"
  new_JsonRpcProvider :: "jsval \<Rightarrow> error + Provider"
  JsonRpcProvider_getSigner :: "Provider \<Rightarrow> js_number + string \<Rightarrow> error + Signer"
  new_AlchemyProvider :: "jsval \<Rightarrow> error + Provider"
  new_EtherscanProvider :: "jsval \<Rightarrow> error + Provider"
  new_InfuraProvider :: "jsval \<Rightarrow> error + Provider"
  new_NodesmithProvider :: "jsval \<Rightarrow> error + Provider"
  new_FallbackProvider :: "Provider list \<Rightarrow> error + Provider"
  getDefaultProvider :: "jsval \<Rightarrow> error + Provider"
  getAddress :: "string \<Rightarrow> error + string"
  new_VoidSigner :: "string \<Rightarrow> Provider \<Rightarrow> Signer"
  BigNumber_from :: "string \<Rightarrow> error + int"
  toNumber :: "int \<Rightarrow> error + int"
  parseInt :: "string \<Rightarrow> js_number"

subsection \<open>Actions\<close>

text \<open>
  A piece of code that may change the state and either returns or throws. \<open>bnd\<close> is
  sequencing (an \<^verbatim>\<open>await\<close> or a semicolon): a throw skips the rest.
\<close>

type_synonym 'a action = "world \<Rightarrow> (error + 'a) \<times> world"

definition ret :: "'a \<Rightarrow> 'a action" where
  "ret x = (\<lambda>\<sigma>. (Inr x, \<sigma>))"

definition throw :: "error \<Rightarrow> 'a action" where
  "throw e = (\<lambda>\<sigma>. (Inl e, \<sigma>))"

definition lift :: "error + 'a \<Rightarrow> 'a action" where
  "lift r = (\<lambda>\<sigma>. (r, \<sigma>))"

definition bnd :: "'a action \<Rightarrow> ('a \<Rightarrow> 'b action) \<Rightarrow> 'b action" where
  "bnd m f = (\<lambda>\<sigma>. case m \<sigma> of (Inl e, \<sigma>') \<Rightarrow> (Inl e, \<sigma>') | (Inr x, \<sigma>') \<Rightarrow> f x \<sigma>')"

definition try_catch :: "'a action \<Rightarrow> (error \<Rightarrow> 'a action) \<Rightarrow> 'a action" where
  "try_catch m h = (\<lambda>\<sigma>. case m \<sigma> of (Inl e, \<sigma>') \<Rightarrow> h e \<sigma>' | (Inr x, \<sigma>') \<Rightarrow> (Inr x, \<sigma>'))"

definition emit :: "event \<Rightarrow> unit action" where
  "emit ev = (\<lambda>\<sigma>. (Inr (), \<sigma>\<lparr>trace := trace \<sigma> @ [ev]\<rparr>))"

text \<open>
  \<^verbatim>\<open>dump(header, info)\<close> prints the header and one aligned line for each key. The trace
  records the header and the pairs; how the lines are laid out is not modelled.
\<close>

definition dump :: "string \<Rightarrow> (string \<times> info_value) list \<Rightarrow> unit action" where
  "dump header info = emit (Dump header info)"

subsection \<open>The prompts\<close>

text \<open>
  The prompt module (\<^verbatim>\<open>./prompt\<close>) is not among the sources. In the state, a script
  holds what the user does at each coming prompt: \<open>None\<close> is an interrupted prompt, and
  an empty script is a terminal with no input left.
\<close>

text \<open>
  Modelled from the spec: \<^verbatim>\<open>getChoice\<close> of the missing prompt module, "a single-choice
  prompt capability returning one of a given set of single-character answers, defaulting
  on non-interactive input"; "any failure to read the prompt, e.g. interrupted input"
  is a rejection.
\<close>

definition getChoice :: "string \<Rightarrow> string \<Rightarrow> string \<Rightarrow> string action" where
  "getChoice message options dflt =
     bnd (emit (ChoicePrompt message)) (\<lambda>_. (\<lambda>\<sigma>.
       case choice_script \<sigma> of
         [] \<Rightarrow> (Inr dflt, \<sigma>)
       | None # rest \<Rightarrow> (Inl (Error ''cancelled''), \<sigma>\<lparr>choice_script := rest\<rparr>)
       | Some s # rest \<Rightarrow>
           (Inr (if length s = 1 \<and> set s \<subseteq> set options then s else dflt),
            \<sigma>\<lparr>choice_script := rest\<rparr>)))"

text \<open>
  Modelled from the spec: \<^verbatim>\<open>getPassword\<close> of the missing prompt module, "a
  password-prompt capability returning masked interactive text or failing with
  cancelled".
\<close>

definition getPassword :: "string \<Rightarrow> string action" where
  "getPassword message =
     bnd (emit (PasswordPrompt message)) (\<lambda>_. (\<lambda>\<sigma>.
       case password_script \<sigma> of
         [] \<Rightarrow> (Inl (Error ''cancelled''), \<sigma>)
       | None # rest \<Rightarrow> (Inl (Error ''cancelled''), \<sigma>\<lparr>password_script := rest\<rparr>)
       | Some s # rest \<Rightarrow> (Inr s, \<sigma>\<lparr>password_script := rest\<rparr>)))"

text \<open>
  Modelled from the spec: \<^verbatim>\<open>getProgressBar\<close> of the missing prompt module, "a
  progress-reporting capability accepting periodic (current, total) updates during
  decryption"; the trace records that the bar was set up.
\<close>

definition getProgressBar :: "string \<Rightarrow> unit action" where
  "getProgressBar action = emit (ProgressBar action)"

section \<open>The signer proxy\<close>

subsection \<open>\<^verbatim>\<open>getSigner\<close>\<close>

text \<open>
  Invoking a factory. The settled one only hands out its promise. The JSON wallet one
  asks for the password (the prompt names the file), shows the progress bar and
  decrypts; what it throws is what the prompt or the decryption threw.
\<close>

fun string_of_jsval :: "jsval \<Rightarrow> string" where
  "string_of_jsval (Str s) = s"
| "string_of_jsval Undefined = ''undefined''"
| "string_of_jsval Null = ''null''"

fun call_signerFunc :: "env \<Rightarrow> signerFunc \<Rightarrow> Signer action" where
  "call_signerFunc E (Settled r) = lift r"
| "call_signerFunc E (DecryptJsonWallet arg content prov) =
     bnd (getPassword (''Password ('' @ string_of_jsval arg @ ''): '')) (\<lambda>password.
     bnd (getProgressBar ''Decrypting'') (\<lambda>_.
     lift (Wallet_fromEncryptedJson E content password prov)))"

text \<open>
  \<^verbatim>\<open>getSigner\<close> suspends once, at \<^verbatim>\<open>await signerFunc()\<close>. \<open>getSigner_call\<close> is the
  part before the suspension: the test \<^verbatim>\<open>signers.has(wrapper)\<close> and, when it fails, the
  invocation of the factory. \<open>getSigner_resume\<close> is the part after it:
  \<^verbatim>\<open>signers.set\<close> with what the factory produced, and the final \<^verbatim>\<open>signers.get\<close>.
  \<open>getSigner\<close> is one directly after the other, as when nothing else runs in between.
  An invocation of the factory is taken as one step up to its outcome: where the factory
  itself suspends (at its password prompt and during decryption) is not modelled.
\<close>

datatype pending = Has | Awaited "error + Signer"

definition getSigner_call :: "env \<Rightarrow> WrappedSigner \<Rightarrow> world \<Rightarrow> pending \<times> world" where
  "getSigner_call E wrapper \<sigma> =
     (if signers \<sigma> (wid wrapper) \<noteq> None then (Has, \<sigma>)
      else
        (case signerFuncs \<sigma> (wid wrapper) of
           None \<Rightarrow> (Awaited (Inl (Error ''signerFunc is not a function'')), \<sigma>)
         | Some signerFunc \<Rightarrow>
             (case bnd (emit (SignerFuncCall (wid wrapper)))
                       (\<lambda>_. call_signerFunc E signerFunc) \<sigma> of
                (r, \<sigma>') \<Rightarrow> (Awaited r, \<sigma>'))))"

text \<open>
  \<^verbatim>\<open>signers.get(wrapper)\<close>. \<^verbatim>\<open>getSigner\<close> reads the map only where it has the key.
\<close>

definition signers_get :: "WrappedSigner \<Rightarrow> Signer action" where
  "signers_get wrapper = (\<lambda>\<sigma>.
     case signers \<sigma> (wid wrapper) of
       None \<Rightarrow> (Inl (Error ''signer is undefined''), \<sigma>)
     | Some signer \<Rightarrow> (Inr signer, \<sigma>))"

fun getSigner_resume :: "WrappedSigner \<Rightarrow> pending \<Rightarrow> Signer action" where
  "getSigner_resume wrapper Has = signers_get wrapper"
| "getSigner_resume wrapper (Awaited (Inl e)) = throw e"
| "getSigner_resume wrapper (Awaited (Inr signer)) =
     bnd (\<lambda>\<sigma>. (Inr (), \<sigma>\<lparr>signers := (signers \<sigma>)(wid wrapper \<mapsto> signer)\<rparr>))
         (\<lambda>_. signers_get wrapper)"

definition getSigner :: "env \<Rightarrow> WrappedSigner \<Rightarrow> Signer action" where
  "getSigner E wrapper = (\<lambda>\<sigma>.
     case getSigner_call E wrapper \<sigma> of (p, \<sigma>') \<Rightarrow> getSigner_resume wrapper p \<sigma>')"

subsection \<open>\<^verbatim>\<open>isAllowed\<close>\<close>

text \<open>
  \<^verbatim>\<open>allowed\<close> is a plain object used as a set of messages, so \<^verbatim>\<open>allowed[message]\<close> is
  truthy for a recorded message and also for the properties every object inherits.
\<close>

definition Object_prototype_keys :: "string list" where
  "Object_prototype_keys =
     [''constructor'', ''__proto__'', ''hasOwnProperty'', ''isPrototypeOf'',
      ''propertyIsEnumerable'', ''toLocaleString'', ''toString'', ''valueOf'',
      ''__defineGetter__'', ''__defineSetter__'', ''__lookupGetter__'',
      ''__lookupSetter__'']"

definition allowed_get :: "string list \<Rightarrow> string \<Rightarrow> bool" where
  "allowed_get allowed message =
     (message \<in> set allowed \<or> message \<in> set Object_prototype_keys)"

definition isAllowed :: "WrappedSigner \<Rightarrow> string \<Rightarrow> bool action" where
  "isAllowed wrapper message =
     (if plugin_yes wrapper then
        bnd (emit (Log (message @ '' (--yes => \"y\")''))) (\<lambda>_. ret True)
      else (\<lambda>\<sigma>.
        (let allowed = (case alwaysAllow \<sigma> (wid wrapper) of None \<Rightarrow> [] | Some a \<Rightarrow> a) in
         if allowed_get allowed message then
           bnd (emit (Log (message @ '' (previous (a)ll => \"y\")''))) (\<lambda>_. ret True) \<sigma>
         else
           bnd (try_catch
                  (bnd (getChoice message ''yna'' ''n'') (\<lambda>allow.
                     if allow = ''a'' then
                       (\<lambda>\<sigma>. (Inr (), \<sigma>\<lparr>alwaysAllow :=
                          (alwaysAllow \<sigma>)(wid wrapper \<mapsto> allowed @ [message])\<rparr>))
                     else if allow = ''n'' then throw (Error ''Cancelled.'')
                     else ret ()))
                  (\<lambda>error. throw (Error ''Cancelled.'')))
               (\<lambda>_. ret True) \<sigma>)))"

subsection \<open>\<^verbatim>\<open>class WrappedSigner\<close>\<close>

text \<open>The constructor registers the factory under the identity of the new object.\<close>

definition new_WrappedSigner ::
  "error + string \<Rightarrow> signerFunc \<Rightarrow> Provider \<Rightarrow> bool \<Rightarrow> WrappedSigner action" where
  "new_WrappedSigner addressPromise0 signerFunc prov yes0 = (\<lambda>\<sigma>.
     (let w = \<lparr>wid = next_id \<sigma>, addressPromise = addressPromise0,
                w_provider = prov, plugin_yes = yes0\<rparr>
      in (Inr w, \<sigma>\<lparr>signerFuncs := (signerFuncs \<sigma>)(next_id \<sigma> \<mapsto> signerFunc),
                     next_id := Suc (next_id \<sigma>)\<rparr>)))"

definition call_signer :: "WrappedSigner \<Rightarrow> signer_call \<Rightarrow> error + 'a \<Rightarrow> 'a action" where
  "call_signer wrapper c r = bnd (emit (SignerCall (wid wrapper) c)) (\<lambda>_. lift r)"

definition message_info :: "env \<Rightarrow> message \<Rightarrow> (string \<times> info_value) list" where
  "message_info E m =
     (case m of
        Text s \<Rightarrow> [(''Message'', IStr (JSON_stringify E s)),
                   (''Message (hex)'', IStr (hexlify_utf8 E s))]
      | Bytes bytes \<Rightarrow>
          (if \<exists>c \<in> set bytes. c < 32 \<or> c > 126 then []
           else [(''Message'', IStr (toUtf8String E bytes))])
          @ [(''Message (hex)'', IStr (hexlify_bytes E bytes))])"

definition signature_info :: "string \<Rightarrow> string \<Rightarrow> Signature \<Rightarrow> (string \<times> info_value) list" where
  "signature_info key result signature =
     [(key, IStr result), (''r'', IStr (sig_r signature)), (''s'', IStr (sig_s signature)),
      (''vs'', IStr (sig_vs signature)), (''v'', INum (int (sig_v signature))),
      (''recid'', INum (int (sig_recoveryParam signature)))]"

definition signMessage :: "env \<Rightarrow> WrappedSigner \<Rightarrow> message \<Rightarrow> string action" where
  "signMessage E this m =
     bnd (getSigner E this) (\<lambda>signer.
     bnd (dump ''Message:'' (message_info E m)) (\<lambda>_.
     bnd (isAllowed this ''Sign Message?'') (\<lambda>_.
     bnd (call_signer this SignMessage (signer_signMessage signer m)) (\<lambda>result.
     bnd (lift (splitSignature E result)) (\<lambda>signature.
     bnd (dump ''Signature'' (signature_info ''Flat'' result signature)) (\<lambda>_.
     ret result))))))"

text \<open>
  The summary of a transaction. The nonce is listed under the key \<^verbatim>\<open>None\<close>, as in the
  source. \<^verbatim>\<open>x || d\<close> replaces an absent or falsy \<open>x\<close>.
\<close>

definition transaction_info ::
  "env \<Rightarrow> TransactionRequest \<Rightarrow> Network \<Rightarrow> error + (string \<times> info_value) list" where
  "transaction_info E tx network =
     (case hexlify E (case tx_data tx of None \<Rightarrow> ''0x''
                       | Some d \<Rightarrow> if d = [] then ''0x'' else d) of
        Inl e \<Rightarrow> Inl e
      | Inr data_hex \<Rightarrow> Inr (
          (case tx_to tx of None \<Rightarrow> [] | Some a \<Rightarrow> [(''To'', IStr a)])
          @ (case tx_from tx of None \<Rightarrow> [] | Some a \<Rightarrow> [(''From'', IStr a)])
          @ [(''Value'', IStr (formatEther E (case tx_value tx of None \<Rightarrow> 0 | Some v \<Rightarrow> v)
                               @ '' ether''))]
          @ (case tx_nonce tx of None \<Rightarrow> [] | Some n \<Rightarrow> [(''None'', INum (int n))])
          @ [(''Gas Limit'', INum (case tx_gasLimit tx of None \<Rightarrow> 0 | Some g \<Rightarrow> g)),
             (''Gas Price'', IStr (formatUnits_gwei E
                                    (case tx_gasPrice tx of None \<Rightarrow> 0 | Some g \<Rightarrow> g)
                                  @ '' gwei'')),
             (''Chain ID'', INum (case tx_chainId tx of None \<Rightarrow> 0 | Some c \<Rightarrow> int c)),
             (''Data'', IStr data_hex),
             (''Network'', IStr (net_name network))]))"

definition signTransaction ::
  "env \<Rightarrow> WrappedSigner \<Rightarrow> TransactionRequest \<Rightarrow> string action" where
  "signTransaction E this transactionRequest =
     bnd (getSigner E this) (\<lambda>signer.
     bnd (lift (getNetwork (w_provider this))) (\<lambda>network.
     bnd (lift (resolveProperties E transactionRequest)) (\<lambda>tx.
     bnd (lift (transaction_info E tx network)) (\<lambda>info.
     bnd (dump ''Transaction:'' info) (\<lambda>_.
     bnd (isAllowed this ''Sign Transaction?'') (\<lambda>_.
     bnd (call_signer this SignTransaction
            (signer_signTransaction signer transactionRequest)) (\<lambda>result.
     bnd (lift (splitSignature E result)) (\<lambda>signature.
     bnd (dump ''Signature:'' (signature_info ''Signature'' result signature)) (\<lambda>_.
     ret result)))))))))"

definition sendTransaction ::
  "env \<Rightarrow> WrappedSigner \<Rightarrow> TransactionRequest \<Rightarrow> TransactionResponse action" where
  "sendTransaction E this transactionRequest =
     bnd (getSigner E this) (\<lambda>signer.
     bnd (lift (getNetwork (w_provider this))) (\<lambda>network.
     bnd (call_signer this PopulateTransaction
            (signer_populateTransaction signer transactionRequest)) (\<lambda>tx0.
     bnd (lift (resolveProperties E tx0)) (\<lambda>tx.
     bnd (lift (transaction_info E tx network)) (\<lambda>info.
     bnd (dump ''Transaction:'' info) (\<lambda>_.
     bnd (isAllowed this ''Send Transaction?'') (\<lambda>_.
     bnd (call_signer this SendTransaction (signer_sendTransaction signer tx)) (\<lambda>response.
     bnd (dump ''Response:'' [(''Hash'', IStr (response_hash response))]) (\<lambda>_.
     ret response)))))))))"

definition unlock :: "env \<Rightarrow> WrappedSigner \<Rightarrow> unit action" where
  "unlock E this = bnd (getSigner E this) (\<lambda>_. ret ())"

subsection \<open>Operations on one wrapper, one after the other\<close>

datatype operation =
    OpSignMessage message
  | OpSignTransaction TransactionRequest
  | OpSendTransaction TransactionRequest
  | OpUnlock

datatype outcome = Signed string | Sent TransactionResponse | Unlocked

fun run_operation :: "env \<Rightarrow> WrappedSigner \<Rightarrow> operation \<Rightarrow> outcome action" where
  "run_operation E w (OpSignMessage m) = bnd (signMessage E w m) (\<lambda>r. ret (Signed r))"
| "run_operation E w (OpSignTransaction t) = bnd (signTransaction E w t) (\<lambda>r. ret (Signed r))"
| "run_operation E w (OpSendTransaction t) = bnd (sendTransaction E w t) (\<lambda>r. ret (Sent r))"
| "run_operation E w OpUnlock = bnd (unlock E w) (\<lambda>_. ret Unlocked)"

text \<open>
  A caller that runs the operations in turn and goes on after a failure; the results
  are collected.
\<close>

fun run_operations ::
  "env \<Rightarrow> WrappedSigner \<Rightarrow> operation list \<Rightarrow> world \<Rightarrow> (error + outcome) list \<times> world" where
  "run_operations E w [] \<sigma> = ([], \<sigma>)"
| "run_operations E w (x # xs) \<sigma> =
     (case run_operation E w x \<sigma> of
        (r, \<sigma>') \<Rightarrow> (case run_operations E w xs \<sigma>' of (rs, \<sigma>'') \<Rightarrow> (r # rs, \<sigma>'')))"

text \<open>How often the factory of the wrapper \<open>n\<close> has been invoked.\<close>

definition signerFunc_calls :: "nat \<Rightarrow> world \<Rightarrow> nat" where
  "signerFunc_calls n \<sigma> = length (filter (\<lambda>ev. ev = SignerFuncCall n) (trace \<sigma>))"

text \<open>
  Two calls of \<^verbatim>\<open>getSigner\<close> for the same wrapper, the second made while the first is
  suspended at its \<^verbatim>\<open>await\<close>: both run their first part, then both resume.
\<close>

definition getSigner_overlapped ::
  "env \<Rightarrow> WrappedSigner \<Rightarrow> world \<Rightarrow> ((error + Signer) \<times> (error + Signer)) \<times> world" where
  "getSigner_overlapped E wrapper \<sigma> =
     (case getSigner_call E wrapper \<sigma> of (p1, \<sigma>1) \<Rightarrow>
      case getSigner_call E wrapper \<sigma>1 of (p2, \<sigma>2) \<Rightarrow>
      case getSigner_resume wrapper p1 \<sigma>2 of (r1, \<sigma>3) \<Rightarrow>
      case getSigner_resume wrapper p2 \<sigma>3 of (r2, \<sigma>4) \<Rightarrow> ((r1, r2), \<sigma>4))"

subsection \<open>Auxiliary notions for the proxy proofs\<close>

text \<open>The consent question of each gated operation; \<^verbatim>\<open>unlock\<close> asks none.\<close>

fun consent_message :: "operation \<Rightarrow> string" where
  "consent_message (OpSignMessage m) = ''Sign Message?''"
| "consent_message (OpSignTransaction t) = ''Sign Transaction?''"
| "consent_message (OpSendTransaction t) = ''Send Transaction?''"
| "consent_message OpUnlock = []"

text \<open>
  The calls of the real signer of wrapper \<open>n\<close> that sign or send (populating a
  transaction is not one of them).
\<close>

definition signing_calls :: "nat \<Rightarrow> world \<Rightarrow> event list" where
  "signing_calls n \<sigma> =
     filter (\<lambda>ev. ev = SignerCall n SignMessage \<or> ev = SignerCall n SignTransaction
                   \<or> ev = SignerCall n SendTransaction) (trace \<sigma>)"

definition allowed_of :: "world \<Rightarrow> nat \<Rightarrow> string list" where
  "allowed_of \<sigma> n = (case alwaysAllow \<sigma> n of None \<Rightarrow> [] | Some a \<Rightarrow> a)"

text \<open>An action keeps a relation between the state before and the state after.\<close>

definition keeps :: "(world \<Rightarrow> world \<Rightarrow> bool) \<Rightarrow> 'a action \<Rightarrow> bool" where
  "keeps R m = (\<forall>\<sigma> r \<sigma>'. m \<sigma> = (r, \<sigma>') \<longrightarrow> R \<sigma> \<sigma>')"

text \<open>Nothing about materialization changes: the stored signers, the factories, the count.\<close>

definition memo_stable :: "nat \<Rightarrow> world \<Rightarrow> world \<Rightarrow> bool" where
  "memo_stable n \<sigma> \<sigma>' =
     (signers \<sigma>' = signers \<sigma> \<and> signerFuncs \<sigma>' = signerFuncs \<sigma>
      \<and> signerFunc_calls n \<sigma>' = signerFunc_calls n \<sigma>)"

text \<open>Moreover no consent is asked or recorded and nothing is signed.\<close>

definition quiet :: "nat \<Rightarrow> world \<Rightarrow> world \<Rightarrow> bool" where
  "quiet n \<sigma> \<sigma>' =
     (memo_stable n \<sigma> \<sigma>' \<and> choice_script \<sigma>' = choice_script \<sigma>
      \<and> alwaysAllow \<sigma>' = alwaysAllow \<sigma> \<and> signing_calls n \<sigma>' = signing_calls n \<sigma>)"

text \<open>
  What an action does when the user's next answer is \<^verbatim>\<open>n\<close> and the question \<open>msg\<close> has
  no standing permission: it throws, it signs nothing and materializes nothing, and
  either it has consumed the answer and throws \<^verbatim>\<open>Cancelled.\<close>, or it has left the
  answers alone.
\<close>

definition refuses :: "nat \<Rightarrow> string \<Rightarrow> string option list \<Rightarrow> 'a action \<Rightarrow> bool" where
  "refuses n msg rest m =
     (\<forall>\<sigma> r \<sigma>'. choice_script \<sigma> = Some ''n'' # rest \<and> \<not> allowed_get (allowed_of \<sigma> n) msg
         \<and> m \<sigma> = (r, \<sigma>') \<longrightarrow>
        (\<exists>e. r = Inl e) \<and> memo_stable n \<sigma> \<sigma>' \<and> signing_calls n \<sigma>' = signing_calls n \<sigma>
        \<and> (choice_script \<sigma>' = rest \<longrightarrow> r = Inl (Error ''Cancelled.''))
        \<and> (choice_script \<sigma>' \<noteq> rest \<longrightarrow> choice_script \<sigma>' = Some ''n'' # rest))"

section \<open>Account loading\<close>

fun message_of :: "error \<Rightarrow> string" where
  "message_of (UsageError m) = m"
| "message_of (Error m) = m"

text \<open>
  \<^verbatim>\<open>loadAccount(arg, plugin)\<close>; of the plugin it uses the provider and hands the plugin on
  to the wrapper. The cases are tried in the order of the source. The \<^verbatim>\<open>try\<close> block
  covers reading the file and finding the address in it; the factory built inside it runs
  later, when the signer is first needed. The block yields the wrapper it returns, or
  nothing when it falls through.
\<close>

definition loadAccount_json ::
  "env \<Rightarrow> jsval \<Rightarrow> Provider \<Rightarrow> bool \<Rightarrow> WrappedSigner action" where
  "loadAccount_json E arg prov yes0 =
     bnd (try_catch
            (bnd (lift (readFileSync E arg)) (\<lambda>content.
             bnd (lift (getJsonWalletAddress E content)) (\<lambda>address.
             case address of
               None \<Rightarrow> ret None
             | Some a \<Rightarrow>
                 if a = [] then ret None
                 else bnd (new_WrappedSigner (Inr a) (DecryptJsonWallet arg content prov)
                             prov yes0) (\<lambda>w. ret (Some w)))))
            (\<lambda>error.
               if message_of error = ''cancelled'' then throw (Error ''Cancelled.'')
               else if message_of error = ''wrong password'' then throw (Error ''Incorrect password.'')
               else ret None))
         (\<lambda>returned.
            case returned of
              Some w \<Rightarrow> ret w
            | None \<Rightarrow> throw (UsageError ''unknown account option - [REDACTED]''))"

function loadAccount ::
  "env \<Rightarrow> jsval \<Rightarrow> Provider \<Rightarrow> bool \<Rightarrow> world \<Rightarrow> (error + WrappedSigner) \<times> world" where
  "loadAccount E arg prov yes0 \<sigma> =
     (if arg = Str ''-'' then
        (case getPassword ''Private Key / Mnemonic:'' \<sigma> of
           (Inl e, \<sigma>') \<Rightarrow> (Inl e, \<sigma>')
         | (Inr content, \<sigma>') \<Rightarrow> loadAccount E (Str content) prov yes0 \<sigma>')
      else if isHexString32 E arg then
        bnd (lift (new_Wallet E arg prov)) (\<lambda>signer.
          new_WrappedSigner (signer_getAddress signer) (Settled (Inr signer)) prov yes0) \<sigma>
      else if isValidMnemonic E arg then
        bnd (lift (Wallet_fromMnemonic E arg prov)) (\<lambda>signer.
          new_WrappedSigner (signer_getAddress signer) (Settled (Inr signer)) prov yes0) \<sigma>
      else loadAccount_json E arg prov yes0 \<sigma>)"
  by pat_completeness auto
termination
  apply (relation "measure (\<lambda>(E, arg, prov, yes0, \<sigma>). length (password_script \<sigma>))")
   apply simp
  apply (auto simp: getPassword_def bnd_def emit_def split: list.splits option.splits)
  done

declare loadAccount.simps [simp del]

section \<open>The options pipeline\<close>

text \<open>
  \<^verbatim>\<open>ethers.utils.parseUnits\<close> and \<^verbatim>\<open>parseEther\<close> are not among the sources. The
  spec has the gas price "interpreted in the chain's conventional display unit and
  converted to base units" and the value "interpreted in the chain's major unit and
  converted to base units", with 5 gwei being \<open>5 \<times> 10\<^sup>9\<close> and 1.5 ether being
  \<open>1.5 \<times> 10\<^sup>1\<^sup>8\<close> base units "(18-decimal major unit)".
\<close>

text \<open>Modelled from the spec: the value of a decimal digit, by its character code.\<close>

definition digit_of :: "char \<Rightarrow> nat option" where
  "digit_of c =
     (let code = (of_char c :: nat)
      in if 48 \<le> code \<and> code \<le> 57 then Some (code - 48) else None)"

text \<open>
  Modelled from the spec: the number written by a string of digits, from an accumulator.
\<close>

fun digits_value :: "nat \<Rightarrow> string \<Rightarrow> nat option" where
  "digits_value acc [] = Some acc"
| "digits_value acc (c # cs) =
     (case digit_of c of None \<Rightarrow> None | Some d \<Rightarrow> digits_value (10 * acc + d) cs)"

text \<open>
  Modelled from the spec: \<^verbatim>\<open>parseUnits(s, unit)\<close> for a unit of \<open>k\<close> decimals. A decimal
  numeral with at most \<open>k\<close> digits after the point denotes its value times \<open>10\<^sup>k\<close>
  ("converted to base units"); anything else is an error.
\<close>

definition parseUnits :: "string \<Rightarrow> nat \<Rightarrow> error + int" where
  "parseUnits s k =
     (let negative = (take 1 s = ''-'');
          body = (if negative then drop 1 s else s);
          whole = takeWhile (\<lambda>c. c \<noteq> CHR ''.'') body;
          fraction = drop 1 (dropWhile (\<lambda>c. c \<noteq> CHR ''.'') body)
      in if whole = [] \<and> fraction = [] then Inl (Error ''invalid decimal value'')
         else if length fraction > k then Inl (Error ''fractional component exceeds decimals'')
         else
           (case (digits_value 0 whole, digits_value 0 fraction) of
              (Some w, Some f) \<Rightarrow>
                (let wei = int (w * 10 ^ k + f * 10 ^ (k - length fraction))
                 in Inr (if negative then - wei else wei))
            | _ \<Rightarrow> Inl (Error ''invalid decimal value'')))"

text \<open>
  Modelled from the spec: \<^verbatim>\<open>parseUnits(s, "gwei")\<close>, the "conventional display unit"
  of the gas price, \<open>10\<^sup>9\<close> base units.
\<close>

definition parseUnits_gwei :: "string \<Rightarrow> error + int" where
  "parseUnits_gwei s = parseUnits s 9"

text \<open>Modelled from the spec: \<^verbatim>\<open>parseEther(s)\<close>, the "18-decimal major unit".\<close>

definition parseEther :: "string \<Rightarrow> error + int" where
  "parseEther s = parseUnits s 18"

text \<open>
  \<^verbatim>\<open>class Plugin\<close>: the execution context. An optional field not yet assigned is
  \<open>None\<close>.
\<close>

record Plugin =
  network :: "Network option"
  provider :: Provider
  accounts :: "WrappedSigner list"
  gasLimit :: "int option"
  gasPrice :: "int option"
  nonce :: "int option"
  data :: "string option"
  "value" :: "int option"
  yes :: bool

text \<open>Sequencing of steps that only return or throw.\<close>

definition andThen :: "error + 'a \<Rightarrow> ('a \<Rightarrow> error + 'b) \<Rightarrow> error + 'b" where
  "andThen r f = (case r of Inl e \<Rightarrow> Inl e | Inr x \<Rightarrow> f x)"

text \<open>
  The section "Provider" of \<^verbatim>\<open>prepareOptions\<close>, with the \<^verbatim>\<open>yes\<close> flag before it:
  one provider for each \<^verbatim>\<open>--rpc\<close> URL and each selected service, then the choice among
  them. It yields the flag, the provider and the list \<^verbatim>\<open>rpc\<close>.
\<close>

fun new_JsonRpcProviders :: "env \<Rightarrow> jsval list \<Rightarrow> error + Provider list" where
  "new_JsonRpcProviders E [] = Inr []"
| "new_JsonRpcProviders E (url # urls) =
     andThen (new_JsonRpcProvider E url) (\<lambda>p.
     andThen (new_JsonRpcProviders E urls) (\<lambda>ps. Inr (p # ps)))"

definition flag_provider ::
  "string \<Rightarrow> (jsval \<Rightarrow> error + Provider) \<Rightarrow> jsval \<Rightarrow> ArgParser
     \<Rightarrow> error + (Provider list \<times> ArgParser)" where
  "flag_provider flag new network0 p =
     andThen (consumeFlag flag p) (\<lambda>(selected, p').
       if selected then andThen (new network0) (\<lambda>x. Inr ([x], p')) else Inr ([], p'))"

definition select_provider :: "env \<Rightarrow> jsval \<Rightarrow> Provider list \<Rightarrow> error + Provider" where
  "select_provider E network0 providers =
     (if length providers = 1 then Inr (providers ! 0)
      else if length providers \<noteq> 0 then new_FallbackProvider E providers
      else getDefaultProvider E network0)"

definition prepare_provider ::
  "env \<Rightarrow> ArgParser \<Rightarrow> error + ((bool \<times> Provider \<times> Provider list) \<times> ArgParser)" where
  "prepare_provider E argParser =
     andThen (consumeFlag ''yes'' argParser) (\<lambda>(yes0, p1).
     andThen (consumeOption ''network'' p1) (\<lambda>(n, p2).
     andThen (Inr (if truthy n then n else Str ''homestead'')) (\<lambda>network0.
     andThen (consumeOptions ''rpc'' p2) (\<lambda>(urls, p3).
     andThen (new_JsonRpcProviders E urls) (\<lambda>rpc.
     andThen (flag_provider ''alchemy'' (new_AlchemyProvider E) network0 p3) (\<lambda>(a, p4).
     andThen (flag_provider ''etherscan'' (new_EtherscanProvider E) network0 p4) (\<lambda>(e, p5).
     andThen (flag_provider ''infura'' (new_InfuraProvider E) network0 p5) (\<lambda>(i, p6).
     andThen (flag_provider ''nodesmith'' (new_NodesmithProvider E) network0 p6) (\<lambda>(s, p7).
     andThen (select_provider E network0 (rpc @ a @ e @ i @ s)) (\<lambda>prov.
     Inr ((yes0, prov, rpc), p7)))))))))))"

text \<open>The test \<^verbatim>\<open>s.match(/^[0-9]+$/)\<close>: one or more characters, each a decimal digit.\<close>

definition matches_digits :: "string \<Rightarrow> bool" where
  "matches_digits s =
     (s \<noteq> [] \<and> (\<forall>c \<in> set s. 48 \<le> (of_char c :: nat) \<and> (of_char c :: nat) \<le> 57))"

text \<open>
  The section "Accounts": one wrapper for each account option, in the order of the
  options. A value of digits is an index, given to \<^verbatim>\<open>getSigner\<close> as \<^verbatim>\<open>parseInt\<close>
  returns it; any other value is an address. \<^verbatim>\<open>account.value.match\<close> throws when the
  value is \<^verbatim>\<open>undefined\<close>, inside the \<^verbatim>\<open>try\<close> block.
\<close>

definition account_rpc ::
  "env \<Rightarrow> Provider \<Rightarrow> bool \<Rightarrow> Provider list \<Rightarrow> jsval \<Rightarrow> WrappedSigner action" where
  "account_rpc E prov yes0 rpc v =
     (if length rpc \<noteq> 1 then
        throw (UsageError ''--account-rpc requires exactly one JSON-RPC provider'')
      else
        try_catch
          (case v of
             Str s \<Rightarrow>
               bnd (lift (if matches_digits s
                          then JsonRpcProvider_getSigner E (rpc ! 0) (Inl (parseInt E s))
                          else andThen (getAddress E s) (\<lambda>a.
                                 JsonRpcProvider_getSigner E (rpc ! 0) (Inr a)))) (\<lambda>signer.
               new_WrappedSigner (signer_getAddress signer) (Settled (Inr signer)) prov yes0)
           | _ \<Rightarrow> throw (Error ''Cannot read property match of undefined''))
          (\<lambda>error. throw (UsageError (''invalid --account-rpc - '' @ string_of_jsval v))))"

definition account_void :: "env \<Rightarrow> Provider \<Rightarrow> bool \<Rightarrow> jsval \<Rightarrow> WrappedSigner action" where
  "account_void E prov yes0 v =
     (let addressPromise0 = resolveName prov v;
          signerPromise = andThen addressPromise0 (\<lambda>addr. Inr (new_VoidSigner E addr prov))
      in new_WrappedSigner addressPromise0 (Settled signerPromise) prov yes0)"

fun load_accounts ::
  "env \<Rightarrow> Provider \<Rightarrow> bool \<Rightarrow> Provider list \<Rightarrow> (string \<times> jsval) list
     \<Rightarrow> WrappedSigner list action" where
  "load_accounts E prov yes0 rpc [] = ret []"
| "load_accounts E prov yes0 rpc ((k, v) # rest) =
     bnd (if k = ''account'' then
            bnd (loadAccount E v prov yes0) (\<lambda>w. ret [w])
          else if k = ''account-rpc'' then
            bnd (account_rpc E prov yes0 rpc v) (\<lambda>w. ret [w])
          else if k = ''account-void'' then
            bnd (account_void E prov yes0 v) (\<lambda>w. ret [w])
          else ret []) (\<lambda>ws.
     bnd (load_accounts E prov yes0 rpc rest) (\<lambda>wss. ret (ws @ wss)))"

text \<open>
  The section "Transaction Options". An option that is absent, or present with a falsy
  value, assigns nothing.
\<close>

definition option_with ::
  "string \<Rightarrow> (string \<Rightarrow> error + 'a) \<Rightarrow> ArgParser \<Rightarrow> error + ('a option \<times> ArgParser)" where
  "option_with opt convert p =
     andThen (consumeOption opt p) (\<lambda>(v, p').
       case v of
         Str s \<Rightarrow> if s = [] then Inr (None, p')
                  else andThen (convert s) (\<lambda>x. Inr (Some x, p'))
       | _ \<Rightarrow> Inr (None, p'))"

definition prepare_transaction_options ::
  "env \<Rightarrow> Plugin \<Rightarrow> ArgParser \<Rightarrow> error + (Plugin \<times> ArgParser)" where
  "prepare_transaction_options E this p =
     andThen (option_with ''gas-price'' parseUnits_gwei p) (\<lambda>(gasPrice0, p1).
     andThen (option_with ''gas-limit'' (BigNumber_from E) p1) (\<lambda>(gasLimit0, p2).
     andThen (option_with ''nonce''
                (\<lambda>s. andThen (BigNumber_from E s) (toNumber E)) p2) (\<lambda>(nonce0, p3).
     andThen (option_with ''value'' parseEther p3) (\<lambda>(value0, p4).
     andThen (option_with ''data'' (hexlify E) p4) (\<lambda>(data0, p5).
     Inr (this\<lparr>gasPrice := gasPrice0, gasLimit := gasLimit0, nonce := nonce0,
               value := value0, data := data0\<rparr>, p5))))))"

text \<open>
  Everything of \<^verbatim>\<open>prepareOptions\<close> before the comment "Now wait for all asynchronous
  options to load".
\<close>

definition configureOptions :: "env \<Rightarrow> ArgParser \<Rightarrow> (Plugin \<times> ArgParser) action" where
  "configureOptions E argParser =
     bnd (lift (prepare_provider E argParser)) (\<lambda>((yes0, prov, rpc), p1).
     bnd (lift (consumeMultiOptions [''account'', ''account-rpc'', ''account-void''] p1))
       (\<lambda>(accountOptions, p2).
     bnd (load_accounts E prov yes0 rpc accountOptions) (\<lambda>accounts0.
     lift (prepare_transaction_options E
             \<lparr>network = None, provider = prov, accounts = accounts0, gasLimit = None,
              gasPrice = None, nonce = None, data = None, value = None, yes = yes0\<rparr> p2))))"

text \<open>
  The runner: \<^verbatim>\<open>getNetwork().then(ok, failed)\<close>. Both handlers assign \<^verbatim>\<open>this.network\<close>
  and return, so the runner itself never throws.
\<close>

definition network_runner :: "Plugin \<Rightarrow> Plugin action" where
  "network_runner this =
     (case getNetwork (provider this) of
        Inr network0 \<Rightarrow> ret (this\<lparr>network := Some network0\<rparr>)
      | Inl error \<Rightarrow>
          ret (this\<lparr>network := Some \<lparr>chainId = 0, net_name = ''no-network''\<rparr>\<rparr>))"

text \<open>
  \<^verbatim>\<open>await Promise.all(runners)\<close> inside \<^verbatim>\<open>try\<close>; the handler calls
  \<^verbatim>\<open>this.throwError(error)\<close>, which makes a new \<^verbatim>\<open>Error\<close> from the error it is given.
\<close>

definition prepareOptions :: "env \<Rightarrow> ArgParser \<Rightarrow> (Plugin \<times> ArgParser) action" where
  "prepareOptions E argParser =
     bnd (configureOptions E argParser) (\<lambda>(this, p).
     bnd (try_catch (network_runner this)
            (\<lambda>error. throw (Error (''Error: '' @ message_of error)))) (\<lambda>this'.
     ret (this', p)))"

section \<open>A concrete environment for the examples\<close>

text \<open>
  One network, one provider, one signer that signs anything, and a library in which
  \<^verbatim>\<open>0xkey\<close> stands for a 32-byte hex string, \<^verbatim>\<open>wallet.json\<close> is a readable JSON wallet
  whose password is \<^verbatim>\<open>secret\<close>, and everything else is unknown.
\<close>

definition ex_network :: Network where
  "ex_network = \<lparr>chainId = 1, net_name = ''homestead''\<rparr>"

definition ex_provider :: Provider where
  "ex_provider = \<lparr>getNetwork = Inr ex_network,
                   resolveName = (\<lambda>n. Inl (Error ''unknown name''))\<rparr>"

definition ex_signer :: Signer where
  "ex_signer =
     \<lparr>signer_getAddress = Inr ''0xADDR'',
      signer_signMessage = (\<lambda>m. Inr ''0xSIG''),
      signer_signTransaction = (\<lambda>t. Inr ''0xSIG''),
      signer_populateTransaction = (\<lambda>t. Inr t),
      signer_sendTransaction = (\<lambda>t. Inr \<lparr>response_hash = ''0xHASH''\<rparr>)\<rparr>"

definition ex_env :: env where
  "ex_env =
     \<lparr>JSON_stringify = (\<lambda>s. s),
      hexlify_utf8 = (\<lambda>s. ''0x''),
      toUtf8String = (\<lambda>bs. []),
      hexlify_bytes = (\<lambda>bs. ''0x''),
      hexlify = (\<lambda>s. Inr s),
      formatEther = (\<lambda>v. ''0.0''),
      formatUnits_gwei = (\<lambda>v. ''0.0''),
      resolveProperties = (\<lambda>t. Inr t),
      splitSignature = (\<lambda>s. Inr \<lparr>sig_r = ''0xR'', sig_s = ''0xS'', sig_vs = ''0xVS'',
                                    sig_v = 27, sig_recoveryParam = 0\<rparr>),
      isHexString32 = (\<lambda>a. a = Str ''0xkey''),
      isValidMnemonic = (\<lambda>a. False),
      new_Wallet = (\<lambda>a p. Inr ex_signer),
      Wallet_fromMnemonic = (\<lambda>a p. Inr ex_signer),
      Wallet_fromEncryptedJson =
        (\<lambda>content password p.
           if password = ''secret'' then Inr ex_signer else Inl (Error ''wrong password'')),
      readFileSync =
        (\<lambda>a. if a = Str ''wallet.json'' then Inr ''{...}'' else Inl (Error ''ENOENT'')),
      getJsonWalletAddress = (\<lambda>content. Inr (Some ''0xADDR'')),
      new_JsonRpcProvider = (\<lambda>url. Inr ex_provider),
      JsonRpcProvider_getSigner = (\<lambda>p a. Inr ex_signer),
      new_AlchemyProvider = (\<lambda>n. Inr ex_provider),
      new_EtherscanProvider = (\<lambda>n. Inr ex_provider),
      new_InfuraProvider = (\<lambda>n. Inr ex_provider),
      new_NodesmithProvider = (\<lambda>n. Inr ex_provider),
      new_FallbackProvider = (\<lambda>ps. Inr ex_provider),
      getDefaultProvider = (\<lambda>n. Inr ex_provider),
      getAddress = (\<lambda>a. Inr a),
      new_VoidSigner = (\<lambda>a p. ex_signer),
      BigNumber_from = (\<lambda>s. Inl (Error ''invalid BigNumber string'')),
      toNumber = (\<lambda>n. Inr n),
      parseInt = (\<lambda>s. case digits_value 0 s of
                        Some n \<Rightarrow> Integral n | None \<Rightarrow> Integral 0)\<rparr>"

text \<open>The state at start: nothing registered, a terminal with the given answers.\<close>

definition start :: "string option list \<Rightarrow> string option list \<Rightarrow> world" where
  "start choices passwords =
     \<lparr>signerFuncs = Map.empty, signers = Map.empty, alwaysAllow = Map.empty,
      choice_script = choices, password_script = passwords, trace = [], next_id = 0\<rparr>"

text \<open>A wrapper with identity 0 and its registration, for a given factory.\<close>

definition ex_wrapper :: "bool \<Rightarrow> WrappedSigner" where
  "ex_wrapper yes0 = \<lparr>wid = 0, addressPromise = Inr ''0xADDR'',
                       w_provider = ex_provider, plugin_yes = yes0\<rparr>"

definition registered :: "signerFunc \<Rightarrow> world \<Rightarrow> world" where
  "registered f \<sigma> = \<sigma>\<lparr>signerFuncs := (signerFuncs \<sigma>)(0 \<mapsto> f), next_id := 1\<rparr>"

text \<open>The JSON wallet factory of the file \<^verbatim>\<open>wallet.json\<close>.\<close>

definition ex_wallet_func :: signerFunc where
  "ex_wallet_func = DecryptJsonWallet (Str ''wallet.json'') ''{...}'' ex_provider"



text \<open>
  A library in which every string is a valid mnemonic as well, and deriving a wallet from
  a mnemonic fails with a message of its own.
\<close>

definition phrase_env :: env where
  "phrase_env = ex_env\<lparr>isValidMnemonic := (\<lambda>a. True),
                        Wallet_fromMnemonic := (\<lambda>a p. Inl (Error ''phrase branch''))\<rparr>"

section \<open>Properties of the argument parser\<close>

subsection \<open>The loop of \<^verbatim>\<open>consumeFlag\<close> in closed form\<close>

lemma length_aset: "length (aset cs i v) = max (length cs) (Suc i)"
  by (auto simp: aset_def)

lemma aread_aset: "aread (aset cs i True) k = (k = i \<or> aread cs k)"
  by (auto simp: aset_def aread_def nth_append nth_list_update nth_Cons')

lemma aread_eqI: "length xs = length ys \<Longrightarrow> (\<And>k. aread xs k = aread ys k) \<Longrightarrow> xs = ys"
  by (rule nth_equalityI) (auto simp: aread_def)

lemma mark_all_simps [simp]:
  "mark_all [] cs = cs" "mark_all (k # ks) cs = mark_all ks (aset cs k True)"
  by (simp_all add: mark_all_def)

lemma consumeFlag_loop_hits:
  "consumeFlag_loop name as i count cs =
     (count + length (flag_hits name (drop i as) i), mark_all (flag_hits name (drop i as) i) cs)"
proof (induction name as i count cs rule: consumeFlag_loop.induct)
  case (1 name as i count cs)
  show ?case
  proof (cases "i < length as")
    case False
    then show ?thesis by (simp add: consumeFlag_loop.simps)
  next
    case True
    then have d: "drop i as = as ! i # drop (Suc i) as"
      by (simp add: Cons_nth_drop_Suc)
    show ?thesis
      using True 1 by (subst consumeFlag_loop.simps) (simp add: d Let_def)
  qed
qed

lemma Max_insert_max:
  "finite S \<Longrightarrow> Max (insert (max a b) S) = Max (insert (a::nat) (insert b S))"
  by (cases "S = {}") (simp_all add: max.assoc)

lemma Max_insert_Max:
  "finite A \<Longrightarrow> finite B \<Longrightarrow> Max (insert (Max (insert (n::nat) A)) B) = Max (insert n (A \<union> B))"
proof (cases "B = {}")
  case True
  then show ?thesis by simp
next
  case False
  assume fin: "finite A" "finite B"
  have "Max (insert n (A \<union> B)) = Max (insert n A \<union> B)" by simp
  also have "\<dots> = max (Max (insert n A)) (Max B)"
    using fin False by (intro Max.union) auto
  finally show ?thesis using fin False by simp
qed

lemma length_mark_all:
  "length (mark_all ks cs) = Max (insert (length cs) (Suc ` set ks))"
proof (induction ks arbitrary: cs)
  case Nil
  then show ?case by simp
next
  case (Cons k ks)
  have "Max (insert (max (length cs) (Suc k)) (Suc ` set ks))
        = Max (insert (length cs) (insert (Suc k) (Suc ` set ks)))"
    by (rule Max_insert_max) simp
  then show ?case using Cons by (simp add: length_aset del: Max_insert)
qed

lemma aread_mark_all: "aread (mark_all ks cs) k = (k \<in> set ks \<or> aread cs k)"
  by (induction ks arbitrary: cs) (auto simp: aread_aset)

lemma mark_all_idem: "mark_all ks (mark_all ks cs) = mark_all ks cs"
  by (rule aread_eqI) (auto simp: length_mark_all aread_mark_all Max_insert_Max simp del: Max_insert)

lemma mark_all_commute: "mark_all ks (mark_all js cs) = mark_all js (mark_all ks cs)"
proof (rule aread_eqI)
  show "length (mark_all ks (mark_all js cs)) = length (mark_all js (mark_all ks cs))"
    by (simp add: length_mark_all Max_insert_Max Un_commute del: Max_insert)
qed (auto simp: aread_mark_all)


lemma consumeFlag_hits:
  "consumeFlag name p =
     (let h = flag_hits name (args p) 0 in
      if length h > 1 then Inl (UsageError ''expected at most one --${name}'')
      else Inr (length h = 1, p\<lparr>consumed := mark_all h (consumed p)\<rparr>))"
  by (simp add: consumeFlag_def consumeFlag_loop_hits Let_def)


lemma flag_hits_length:
  "length (flag_hits name as i)
   = length (filter (\<lambda>a. a = ''--'' @ name) (takeWhile (\<lambda>a. a \<noteq> ''--'') as))"
  by (induction as arbitrary: i) auto

lemma flag_hits_ge: "j \<in> set (flag_hits name as i) \<Longrightarrow> i \<le> j"
  by (induction as arbitrary: i) (auto split: if_splits dest: Suc_leD)

lemma flag_hits_mem:
  "k + i \<in> set (flag_hits name as i) \<longleftrightarrow>
     k < length (takeWhile (\<lambda>a. a \<noteq> ''--'') as) \<and> as ! k = ''--'' @ name"
proof (induction as arbitrary: i k)
  case Nil
  then show ?case by simp
next
  case (Cons a as)
  show ?case
  proof (cases k)
    case 0
    have "i \<notin> set (flag_hits name as (Suc i))"
      using flag_hits_ge [of i name as "Suc i"] by auto
    then show ?thesis using 0 by auto
  next
    case (Suc k')
    have "k' + Suc i \<noteq> i" by simp
    then show ?thesis using Suc Cons [of k' "Suc i"] by auto
  qed
qed

lemma flag_hits_set:
  "k \<in> set (flag_hits name as 0) \<longleftrightarrow>
     k < length (takeWhile (\<lambda>a. a \<noteq> ''--'') as) \<and> as ! k = ''--'' @ name"
  using flag_hits_mem [of k 0 name as] by simp

subsection \<open>\<^verbatim>\<open>consumeMultiOptions\<close> always returns\<close>




subsection \<open>Claims about the parser\<close>

text \<open>
  Claim C5, as amended. \<^verbatim>\<open>consumeFlag\<close> scans every token before the first \<^verbatim>\<open>"--"\<close>
  whether or not it is already marked consumed, so its answer depends on the tokens and
  the name only. With more than one token equal to \<^verbatim>\<open>--name\<close> before the first
  \<^verbatim>\<open>"--"\<close> the run raises an error. Otherwise it returns true when there is exactly
  one such token and false when there is none, leaves the tokens as they are, and the
  marks that read true afterwards are those that read true before together with the
  positions of these tokens. With exactly one such token the first run returns true and
  the second run returns true again, changing nothing. In general a second run with the
  same name returns the same answer as the first and changes no mark; whatever the marks
  were, the answer is the same; and runs with two names do not interfere: each returns
  what it returns alone, and the marks are the same in either order.
\<close>

theorem consumeFlag_rescans_marked_tokens:
  "(1 < length (filter (\<lambda>a. a = ''--'' @ name) (takeWhile (\<lambda>a. a \<noteq> ''--'') (args p))) \<longrightarrow>
      (\<exists>e. consumeFlag name p = Inl e))
   \<and> (length (filter (\<lambda>a. a = ''--'' @ name) (takeWhile (\<lambda>a. a \<noteq> ''--'') (args p))) \<le> 1 \<longrightarrow>
      (\<exists>p'. consumeFlag name p
              = Inr (length (filter (\<lambda>a. a = ''--'' @ name)
                       (takeWhile (\<lambda>a. a \<noteq> ''--'') (args p))) = 1, p')
            \<and> args p' = args p
            \<and> (\<forall>k. (k < length (consumed p') \<and> consumed p' ! k)
                   = ((k < length (consumed p) \<and> consumed p ! k)
                      \<or> (k < length (takeWhile (\<lambda>a. a \<noteq> ''--'') (args p))
                          \<and> args p ! k = ''--'' @ name)))))
   \<and> (length (filter (\<lambda>a. a = ''--'' @ name) (takeWhile (\<lambda>a. a \<noteq> ''--'') (args p))) = 1 \<longrightarrow>
      (\<exists>p'. consumeFlag name p = Inr (True, p') \<and> consumeFlag name p' = Inr (True, p')))
   \<and> (consumeFlag name p = Inr (b, p') \<longrightarrow>
      consumeFlag name p' = Inr (b, p') \<and>
      (\<forall>cs. \<exists>q. consumeFlag name (p\<lparr>consumed := cs\<rparr>) = Inr (b, q)))
   \<and> (consumeFlag n1 p = Inr (b1, p1) \<and> consumeFlag n2 p = Inr (b2, p2) \<longrightarrow>
      (\<exists>q. consumeFlag n2 p1 = Inr (b2, q) \<and> consumeFlag n1 p2 = Inr (b1, q)))"
proof (intro conjI impI)
  let ?n = "length (filter (\<lambda>a. a = ''--'' @ name) (takeWhile (\<lambda>a. a \<noteq> ''--'') (args p)))"
  {
    assume "1 < ?n"
    then show "\<exists>e. consumeFlag name p = Inl e"
      by (simp add: consumeFlag_hits Let_def flag_hits_length)
  }
  {
    assume le: "?n \<le> 1"
    let ?p' = "p\<lparr>consumed := mark_all (flag_hits name (args p) 0) (consumed p)\<rparr>"
    have "consumeFlag name p = Inr (?n = 1, ?p')"
      using le by (simp add: consumeFlag_hits Let_def flag_hits_length)
    moreover have "args ?p' = args p" by simp
    moreover have "(k < length (consumed ?p') \<and> consumed ?p' ! k)
                   = ((k < length (consumed p) \<and> consumed p ! k)
                      \<or> (k < length (takeWhile (\<lambda>a. a \<noteq> ''--'') (args p))
                          \<and> args p ! k = ''--'' @ name))" for k
      using aread_mark_all [of "flag_hits name (args p) 0" "consumed p" k]
      by (auto simp: aread_def flag_hits_set)
    ultimately show "\<exists>p'. consumeFlag name p = Inr (?n = 1, p')
            \<and> args p' = args p
            \<and> (\<forall>k. (k < length (consumed p') \<and> consumed p' ! k)
                   = ((k < length (consumed p) \<and> consumed p ! k)
                      \<or> (k < length (takeWhile (\<lambda>a. a \<noteq> ''--'') (args p))
                          \<and> args p ! k = ''--'' @ name)))"
      by blast
  }
  {
    assume "?n = 1"
    then show "\<exists>p'. consumeFlag name p = Inr (True, p') \<and> consumeFlag name p' = Inr (True, p')"
      by (simp add: consumeFlag_hits Let_def flag_hits_length mark_all_idem)
  }
  {
    assume a: "consumeFlag name p = Inr (b, p')"
    then show "consumeFlag name p' = Inr (b, p')"
      by (auto simp: consumeFlag_hits Let_def mark_all_idem split: if_splits)
    from a show "\<forall>cs. \<exists>q. consumeFlag name (p\<lparr>consumed := cs\<rparr>) = Inr (b, q)"
      by (auto simp: consumeFlag_hits Let_def split: if_splits)
  }
  {
    assume "consumeFlag n1 p = Inr (b1, p1) \<and> consumeFlag n2 p = Inr (b2, p2)"
    then show "\<exists>q. consumeFlag n2 p1 = Inr (b2, q) \<and> consumeFlag n1 p2 = Inr (b1, q)"
      by (auto simp: consumeFlag_hits Let_def mark_all_commute split: if_splits)
  }
qed

text \<open>
  Claim C5 as stated fails: on the single token \<^verbatim>\<open>--x\<close> the first run of
  \<^verbatim>\<open>consumeFlag("x")\<close> returns true and marks the token, and the second run on the
  marked token returns true again, not false.
\<close>

theorem consumeFlag_second_run_counterexample:
  "consumeFlag ''x'' (new_ArgParser [''--x'']) = Inr (True, \<lparr>args = [''--x''], consumed = [True]\<rparr>)
   \<and> consumeFlag ''x'' \<lparr>args = [''--x''], consumed = [True]\<rparr>
       = Inr (True, \<lparr>args = [''--x''], consumed = [True]\<rparr>)"
  by code_simp

theorem consumeFlag_rescans_marked_tokens_witness:
  "consumeFlag ''x'' (new_ArgParser [''--x'', ''--y''])
     = Inr (True, \<lparr>args = [''--x'', ''--y''], consumed = [True, False]\<rparr>)
   \<and> consumeFlag ''y'' (new_ArgParser [''--x'', ''--y''])
     = Inr (True, \<lparr>args = [''--x'', ''--y''], consumed = [False, True]\<rparr>)
   \<and> consumeFlag ''x'' \<lparr>args = [''--x'', ''--y''], consumed = [True, False]\<rparr>
     = Inr (True, \<lparr>args = [''--x'', ''--y''], consumed = [True, False]\<rparr>)
   \<and> (\<exists>q. consumeFlag ''y'' \<lparr>args = [''--x'', ''--y''], consumed = [True, False]\<rparr> = Inr (True, q)
          \<and> consumeFlag ''x'' \<lparr>args = [''--x'', ''--y''], consumed = [False, True]\<rparr> = Inr (True, q))
   \<and> (\<exists>e. consumeFlag ''x'' (new_ArgParser [''--x'', ''--x'']) = Inl e)
   \<and> (\<exists>p'. consumeFlag ''z'' (new_ArgParser [''--x'', ''--'', ''--z'']) = Inr (False, p')
          \<and> args p' = [''--x'', ''--'', ''--z'']
          \<and> \<not> (0 < length (consumed p') \<and> consumed p' ! 0)
          \<and> \<not> (2 < length (consumed p') \<and> consumed p' ! 2))
   \<and> (\<exists>p'. consumeFlag ''x'' (new_ArgParser [''--x'', ''--'', ''--x'']) = Inr (True, p')
          \<and> consumeFlag ''x'' p' = Inr (True, p'))"
proof -
  let ?p = "new_ArgParser [''--x'', ''--y'']"
  have x: "consumeFlag ''x'' ?p
     = Inr (True, \<lparr>args = [''--x'', ''--y''], consumed = [True, False]\<rparr>)"
    by code_simp
  have y: "consumeFlag ''y'' ?p
     = Inr (True, \<lparr>args = [''--x'', ''--y''], consumed = [False, True]\<rparr>)"
    by code_simp
  have old: "consumeFlag ''x'' \<lparr>args = [''--x'', ''--y''], consumed = [True, False]\<rparr>
       = Inr (True, \<lparr>args = [''--x'', ''--y''], consumed = [True, False]\<rparr>)
     \<and> (\<exists>q. consumeFlag ''y'' \<lparr>args = [''--x'', ''--y''], consumed = [True, False]\<rparr> = Inr (True, q)
          \<and> consumeFlag ''x'' \<lparr>args = [''--x'', ''--y''], consumed = [False, True]\<rparr> = Inr (True, q))"
    using x y
      consumeFlag_rescans_marked_tokens [of "''x''" ?p True
        "\<lparr>args = [''--x'', ''--y''], consumed = [True, False]\<rparr>" "''x''" True
        "\<lparr>args = [''--x'', ''--y''], consumed = [True, False]\<rparr>" "''y''" True
        "\<lparr>args = [''--x'', ''--y''], consumed = [False, True]\<rparr>"]
    by blast
  have twice: "\<exists>e. consumeFlag ''x'' (new_ArgParser [''--x'', ''--x'']) = Inl e"
    using consumeFlag_rescans_marked_tokens [THEN conjunct1,
        of "''x''" "new_ArgParser [''--x'', ''--x'']"]
    by (simp add: new_ArgParser_def)
  have none: "\<exists>p'. consumeFlag ''z'' (new_ArgParser [''--x'', ''--'', ''--z'']) = Inr (False, p')
          \<and> args p' = [''--x'', ''--'', ''--z'']
          \<and> \<not> (0 < length (consumed p') \<and> consumed p' ! 0)
          \<and> \<not> (2 < length (consumed p') \<and> consumed p' ! 2)"
  proof -
    let ?q = "new_ArgParser [''--x'', ''--'', ''--z'']"
    obtain p' where r: "consumeFlag ''z'' ?q = Inr (False, p')"
      and a: "args p' = args ?q"
      and m: "\<And>k. (k < length (consumed p') \<and> consumed p' ! k)
                 = ((k < length (consumed ?q) \<and> consumed ?q ! k)
                    \<or> (k < length (takeWhile (\<lambda>a. a \<noteq> ''--'') (args ?q))
                        \<and> args ?q ! k = ''--'' @ ''z''))"
      using consumeFlag_rescans_marked_tokens [THEN conjunct2, THEN conjunct1,
          of "''z''" ?q]
      by (simp add: new_ArgParser_def) blast
    have "args p' = [''--x'', ''--'', ''--z'']"
      using a by (simp add: new_ArgParser_def)
    moreover have "\<not> (0 < length (consumed p') \<and> consumed p' ! 0)"
      unfolding m [of 0] by (simp add: new_ArgParser_def)
    moreover have "\<not> (2 < length (consumed p') \<and> consumed p' ! 2)"
      unfolding m [of 2] by (simp add: new_ArgParser_def)
    ultimately show ?thesis using r by blast
  qed
  have once: "\<exists>p'. consumeFlag ''x'' (new_ArgParser [''--x'', ''--'', ''--x'']) = Inr (True, p')
          \<and> consumeFlag ''x'' p' = Inr (True, p')"
    using consumeFlag_rescans_marked_tokens [THEN conjunct2, THEN conjunct2, THEN conjunct1,
        of "''x''" "new_ArgParser [''--x'', ''--'', ''--x'']"]
    by (simp add: new_ArgParser_def)
  show ?thesis using x y old twice none once by blast
qed

text \<open>
  Claim C4 says that an option token in the last position, with no value after it, is a
  usage error. On the token list \<^verbatim>\<open>["--a"]\<close>, \<^verbatim>\<open>consumeMultiOptions(["a"])\<close>
  raises nothing: it returns the option with the value \<^verbatim>\<open>undefined\<close> read past the
  end of the tokens, and the mark array has grown by one entry.
\<close>

theorem consumeMultiOptions_last_token_no_error:
  "consumeMultiOptions [''a''] (new_ArgParser [''--a''])
     = Inr ([(''a'', Undefined)], \<lparr>args = [''--a''], consumed = [True, True]\<rparr>)"
  by code_simp




section \<open>Properties of the signer proxy\<close>

subsection \<open>Actions that keep a relation\<close>

lemma keeps_ret: "(\<And>\<sigma>. R \<sigma> \<sigma>) \<Longrightarrow> keeps R (ret x)"
  by (simp add: keeps_def ret_def)

lemma keeps_throw: "(\<And>\<sigma>. R \<sigma> \<sigma>) \<Longrightarrow> keeps R (throw e)"
  by (simp add: keeps_def throw_def)

lemma keeps_lift: "(\<And>\<sigma>. R \<sigma> \<sigma>) \<Longrightarrow> keeps R (lift r)"
  by (simp add: keeps_def lift_def)

lemma keeps_bnd:
  assumes "keeps R m" and "\<And>x. keeps R (f x)"
    and "\<And>a b c. R a b \<Longrightarrow> R b c \<Longrightarrow> R a c"
  shows "keeps R (bnd m f)"
  unfolding keeps_def bnd_def
proof (intro allI impI)
  fix \<sigma> r \<sigma>'
  assume h: "(case m \<sigma> of (Inl e, \<sigma>') \<Rightarrow> (Inl e, \<sigma>') | (Inr x, \<sigma>') \<Rightarrow> f x \<sigma>') = (r, \<sigma>')"
  obtain r1 \<sigma>1 where m: "m \<sigma> = (r1, \<sigma>1)" by (cases "m \<sigma>")
  then have R1: "R \<sigma> \<sigma>1" using assms(1) by (simp add: keeps_def)
  show "R \<sigma> \<sigma>'"
  proof (cases r1)
    case (Inl e)
    then show ?thesis using h m R1 by simp
  next
    case (Inr x)
    then have "f x \<sigma>1 = (r, \<sigma>')" using h m by simp
    then have "R \<sigma>1 \<sigma>'" using assms(2) by (simp add: keeps_def)
    then show ?thesis using R1 assms(3) by blast
  qed
qed

lemma keeps_try_catch:
  assumes "keeps R m" and "\<And>e. keeps R (h e)"
    and "\<And>a b c. R a b \<Longrightarrow> R b c \<Longrightarrow> R a c"
  shows "keeps R (try_catch m h)"
  unfolding keeps_def try_catch_def
proof (intro allI impI)
  fix \<sigma> r \<sigma>'
  assume a: "(case m \<sigma> of (Inl e, \<sigma>') \<Rightarrow> h e \<sigma>' | (Inr x, \<sigma>') \<Rightarrow> (Inr x, \<sigma>')) = (r, \<sigma>')"
  obtain r1 \<sigma>1 where m: "m \<sigma> = (r1, \<sigma>1)" by (cases "m \<sigma>")
  then have R1: "R \<sigma> \<sigma>1" using assms(1) by (simp add: keeps_def)
  show "R \<sigma> \<sigma>'"
  proof (cases r1)
    case (Inr x)
    then show ?thesis using a m R1 by simp
  next
    case (Inl e)
    then have "h e \<sigma>1 = (r, \<sigma>')" using a m by simp
    then have "R \<sigma>1 \<sigma>'" using assms(2) by (simp add: keeps_def)
    then show ?thesis using R1 assms(3) by blast
  qed
qed

lemma memo_stable_refl: "memo_stable n \<sigma> \<sigma>"
  by (simp add: memo_stable_def)

lemma memo_stable_trans: "memo_stable n a b \<Longrightarrow> memo_stable n b c \<Longrightarrow> memo_stable n a c"
  by (simp add: memo_stable_def)

lemma quiet_refl: "quiet n \<sigma> \<sigma>"
  by (simp add: quiet_def memo_stable_def)

lemma quiet_trans: "quiet n a b \<Longrightarrow> quiet n b c \<Longrightarrow> quiet n a c"
  by (simp add: quiet_def memo_stable_def)

lemma memo_stable_emit:
  "ev \<noteq> SignerFuncCall n \<Longrightarrow> keeps (memo_stable n) (emit ev)"
  by (simp add: keeps_def emit_def memo_stable_def signerFunc_calls_def)

lemma memo_stable_dump: "keeps (memo_stable n) (dump h i)"
  by (simp add: dump_def memo_stable_emit)

lemma memo_stable_call_signer: "keeps (memo_stable n) (call_signer w c r)"
  unfolding call_signer_def
  by (intro keeps_bnd memo_stable_emit keeps_lift memo_stable_refl) (auto elim: memo_stable_trans)

lemma memo_stable_getChoice: "keeps (memo_stable n) (getChoice msg opts d)"
  by (auto simp: keeps_def getChoice_def bnd_def emit_def memo_stable_def signerFunc_calls_def
      split: list.splits option.splits)

lemma memo_stable_isAllowed: "keeps (memo_stable n) (isAllowed w msg)"
  by (auto simp: keeps_def isAllowed_def getChoice_def bnd_def emit_def memo_stable_def
        signerFunc_calls_def try_catch_def ret_def throw_def Let_def
      split: list.splits option.splits if_splits)


lemma quiet_emit:
  "ev \<noteq> SignerFuncCall n \<Longrightarrow> ev \<noteq> SignerCall n SignMessage \<Longrightarrow>
   ev \<noteq> SignerCall n SignTransaction \<Longrightarrow> ev \<noteq> SignerCall n SendTransaction \<Longrightarrow>
   keeps (quiet n) (emit ev)"
  by (simp add: keeps_def emit_def quiet_def memo_stable_def signerFunc_calls_def
        signing_calls_def)

lemma quiet_dump: "keeps (quiet n) (dump h i)"
  by (simp add: dump_def quiet_emit)

lemma quiet_populate: "keeps (quiet n) (call_signer w PopulateTransaction r)"
  unfolding call_signer_def
  by (intro keeps_bnd quiet_emit keeps_lift quiet_refl) (auto elim: quiet_trans)

lemma quiet_lift: "keeps (quiet n) (lift r)"
  by (rule keeps_lift) (rule quiet_refl)

lemma memo_lift: "keeps (memo_stable n) (lift r)"
  by (rule keeps_lift) (rule memo_stable_refl)

lemma memo_ret: "keeps (memo_stable n) (ret r)"
  by (rule keeps_ret) (rule memo_stable_refl)

lemma memo_bnd:
  "keeps (memo_stable n) m \<Longrightarrow> (\<And>x. keeps (memo_stable n) (f x)) \<Longrightarrow>
   keeps (memo_stable n) (bnd m f)"
  by (rule keeps_bnd) (auto elim: memo_stable_trans)

lemmas memo_intros =
  memo_bnd memo_lift memo_ret memo_stable_dump memo_stable_call_signer memo_stable_isAllowed

subsection \<open>\<^verbatim>\<open>getSigner\<close> and what follows it\<close>

lemma getSigner_has:
  "signers \<sigma> (wid w) = Some s \<Longrightarrow> getSigner E w \<sigma> = (Inr s, \<sigma>)"
  by (simp add: getSigner_def getSigner_call_def signers_get_def)

lemma call_signerFunc_quiet:
  "call_signerFunc E f \<sigma> = (r, \<sigma>') \<Longrightarrow> quiet n \<sigma> \<sigma>'"
  by (cases f)
     (auto simp: lift_def bnd_def getPassword_def getProgressBar_def emit_def quiet_def
        memo_stable_def signerFunc_calls_def signing_calls_def
       split: list.splits option.splits sum.splits prod.splits)

lemma getSigner_fresh:
  assumes "signers \<sigma> (wid w) = None" and "getSigner E w \<sigma> = (r, \<sigma>')"
  shows "signerFuncs \<sigma>' = signerFuncs \<sigma> \<and> choice_script \<sigma>' = choice_script \<sigma>
       \<and> alwaysAllow \<sigma>' = alwaysAllow \<sigma> \<and> signing_calls n \<sigma>' = signing_calls n \<sigma>
       \<and> signerFunc_calls (wid w) \<sigma>' \<le> signerFunc_calls (wid w) \<sigma> + 1
       \<and> (case r of
             Inl e \<Rightarrow> signers \<sigma>' = signers \<sigma>
           | Inr s \<Rightarrow> signers \<sigma>' = (signers \<sigma>)(wid w \<mapsto> s)
                      \<and> signerFunc_calls (wid w) \<sigma>' = signerFunc_calls (wid w) \<sigma> + 1)"
proof (cases "signerFuncs \<sigma> (wid w)")
  case None
  then show ?thesis using assms
    by (auto simp: getSigner_def getSigner_call_def throw_def)
next
  case (Some f)
  let ?\<sigma>0 = "\<sigma>\<lparr>trace := trace \<sigma> @ [SignerFuncCall (wid w)]\<rparr>"
  obtain r1 \<sigma>1 where c: "call_signerFunc E f ?\<sigma>0 = (r1, \<sigma>1)"
    by (cases "call_signerFunc E f ?\<sigma>0")
  have q: "quiet (wid w) ?\<sigma>0 \<sigma>1" "quiet n ?\<sigma>0 \<sigma>1"
    using c by (rule call_signerFunc_quiet)+
  have gc: "getSigner_call E w \<sigma> = (Awaited r1, \<sigma>1)"
    using assms(1) Some c by (simp add: getSigner_call_def bnd_def emit_def)
  show ?thesis
  proof (cases r1)
    case (Inl e)
    then show ?thesis using assms(2) gc q
      by (auto simp: getSigner_def throw_def quiet_def memo_stable_def signerFunc_calls_def
            signing_calls_def)
  next
    case (Inr s)
    then show ?thesis using assms(2) gc q
      by (auto simp: getSigner_def bnd_def signers_get_def quiet_def memo_stable_def
            signerFunc_calls_def signing_calls_def)
  qed
qed


lemma bnd_assoc: "bnd (bnd m f) g = bnd m (\<lambda>x. bnd (f x) g)"
  by (auto simp: bnd_def fun_eq_iff split: prod.splits sum.splits)

lemma after_getSigner_has:
  assumes "bnd (getSigner E w) f \<sigma> = (r, \<sigma>')" and "signers \<sigma> (wid w) = Some s0"
    and "\<And>s. keeps (memo_stable (wid w)) (f s)"
  shows "memo_stable (wid w) \<sigma> \<sigma>'"
proof -
  have "f s0 \<sigma> = (r, \<sigma>')"
    using assms(1) getSigner_has [OF assms(2), of E] by (simp add: bnd_def)
  then show ?thesis using assms(3) [of s0] by (simp add: keeps_def)
qed

lemma after_getSigner_fresh:
  assumes "bnd (getSigner E w) f \<sigma> = (r, \<sigma>')" and "signers \<sigma> (wid w) = None"
    and "\<And>s. keeps (memo_stable (wid w)) (f s)"
  shows "signerFunc_calls (wid w) \<sigma>' \<le> signerFunc_calls (wid w) \<sigma> + 1
       \<and> (\<forall>s. fst (getSigner_call E w \<sigma>) = Awaited (Inr s) \<longrightarrow>
             signers \<sigma>' (wid w) = Some s
             \<and> signerFunc_calls (wid w) \<sigma>' = signerFunc_calls (wid w) \<sigma> + 1)"
proof -
  obtain r1 \<sigma>1 where g: "getSigner E w \<sigma> = (r1, \<sigma>1)" by (cases "getSigner E w \<sigma>")
  note fr = getSigner_fresh [OF assms(2) g, of "wid w"]
  show ?thesis
  proof (cases r1)
    case (Inl e)
    then have "\<sigma>' = \<sigma>1" using assms(1) g by (simp add: bnd_def)
    moreover have "\<And>s. fst (getSigner_call E w \<sigma>) \<noteq> Awaited (Inr s)"
      using g Inl
      by (auto simp: getSigner_def bnd_def signers_get_def split: prod.splits)
    ultimately show ?thesis using fr by simp
  next
    case (Inr s1)
    then have "f s1 \<sigma>1 = (r, \<sigma>')" using assms(1) g by (simp add: bnd_def)
    then have m: "memo_stable (wid w) \<sigma>1 \<sigma>'" using assms(3) [of s1] by (simp add: keeps_def)
    have "\<And>s. fst (getSigner_call E w \<sigma>) = Awaited (Inr s) \<Longrightarrow> s = s1"
      using g Inr
      by (auto simp: getSigner_def bnd_def signers_get_def throw_def split: prod.splits)
    then show ?thesis using fr m Inr by (auto simp: memo_stable_def)
  qed
qed

lemma run_operation_getSigner:
  "\<exists>f. run_operation E w x = bnd (getSigner E w) f \<and> (\<forall>s. keeps (memo_stable (wid w)) (f s))"
proof (cases x)
  case (OpSignMessage m)
  show ?thesis
    unfolding OpSignMessage run_operation.simps signMessage_def bnd_assoc
    by (rule exI, rule conjI, rule refl) (intro allI memo_intros)
next
  case (OpSignTransaction t)
  show ?thesis
    unfolding OpSignTransaction run_operation.simps signTransaction_def bnd_assoc
    by (rule exI, rule conjI, rule refl) (intro allI memo_intros)
next
  case (OpSendTransaction t)
  show ?thesis
    unfolding OpSendTransaction run_operation.simps sendTransaction_def bnd_assoc
    by (rule exI, rule conjI, rule refl) (intro allI memo_intros)
next
  case OpUnlock
  show ?thesis
    unfolding OpUnlock run_operation.simps unlock_def bnd_assoc
    by (rule exI, rule conjI, rule refl) (intro allI memo_intros)
qed

lemma run_operation_has:
  assumes "signers \<sigma> (wid w) = Some s0" and "run_operation E w x \<sigma> = (r, \<sigma>')"
  shows "memo_stable (wid w) \<sigma> \<sigma>'"
proof -
  obtain f where f: "run_operation E w x = bnd (getSigner E w) f"
      "\<And>s. keeps (memo_stable (wid w)) (f s)"
    using run_operation_getSigner by blast
  show ?thesis using after_getSigner_has [of E w f \<sigma> r \<sigma>' s0] f assms by simp
qed

lemma run_operation_fresh:
  assumes "signers \<sigma> (wid w) = None" and "run_operation E w x \<sigma> = (r, \<sigma>')"
  shows "signerFunc_calls (wid w) \<sigma>' \<le> signerFunc_calls (wid w) \<sigma> + 1
       \<and> (\<forall>s. fst (getSigner_call E w \<sigma>) = Awaited (Inr s) \<longrightarrow>
             signers \<sigma>' (wid w) = Some s
             \<and> signerFunc_calls (wid w) \<sigma>' = signerFunc_calls (wid w) \<sigma> + 1)"
proof -
  obtain f where f: "run_operation E w x = bnd (getSigner E w) f"
      "\<And>s. keeps (memo_stable (wid w)) (f s)"
    using run_operation_getSigner by blast
  show ?thesis using after_getSigner_fresh [of E w f \<sigma> r \<sigma>'] f assms by simp
qed

lemma run_operations_has:
  "signers \<sigma> (wid w) = Some s0 \<Longrightarrow>
   memo_stable (wid w) \<sigma> (snd (run_operations E w xs \<sigma>))"
proof (induction xs arbitrary: \<sigma>)
  case Nil
  then show ?case by (simp add: memo_stable_refl)
next
  case (Cons x xs)
  obtain r \<sigma>1 where x: "run_operation E w x \<sigma> = (r, \<sigma>1)" by (cases "run_operation E w x \<sigma>")
  have m: "memo_stable (wid w) \<sigma> \<sigma>1" using run_operation_has [OF Cons.prems x] .
  then have "signers \<sigma>1 (wid w) = Some s0" using Cons.prems by (simp add: memo_stable_def)
  then have "memo_stable (wid w) \<sigma>1 (snd (run_operations E w xs \<sigma>1))" by (rule Cons.IH)
  then show ?case using m x by (auto simp: memo_stable_def split: prod.splits)
qed

subsection \<open>Materialization\<close>

text \<open>
  Claim C2, as amended. Once the signer of a wrapped identity is stored, no operation on it
  (\<^verbatim>\<open>signMessage\<close>, \<^verbatim>\<open>signTransaction\<close>, \<^verbatim>\<open>sendTransaction\<close>, \<^verbatim>\<open>unlock\<close>), run one
  after the other in any number, invokes the factory again. If no signer is stored and the
  first invocation of the factory succeeds, any such run invokes the factory exactly once.
  One operation invokes it at most once. (A failed materialization stores nothing, and
  nothing is said here about a call of \<^verbatim>\<open>getSigner\<close> made while another one is
  suspended.)
\<close>

theorem factory_not_invoked_again:
  "(signers \<sigma> (wid w) \<noteq> None \<longrightarrow>
      signerFunc_calls (wid w) (snd (run_operations E w xs \<sigma>)) = signerFunc_calls (wid w) \<sigma>)
   \<and> (signers \<sigma> (wid w) = None \<and> fst (getSigner_call E w \<sigma>) = Awaited (Inr s) \<longrightarrow>
      signerFunc_calls (wid w) (snd (run_operations E w (x # xs) \<sigma>))
        = signerFunc_calls (wid w) \<sigma> + 1)
   \<and> signerFunc_calls (wid w) (snd (run_operation E w x \<sigma>)) \<le> signerFunc_calls (wid w) \<sigma> + 1"
proof (intro conjI impI)
  assume "signers \<sigma> (wid w) \<noteq> None"
  then obtain s0 where "signers \<sigma> (wid w) = Some s0" by auto
  then show "signerFunc_calls (wid w) (snd (run_operations E w xs \<sigma>)) = signerFunc_calls (wid w) \<sigma>"
    using run_operations_has [of \<sigma> w s0 E xs] by (simp add: memo_stable_def)
next
  assume a: "signers \<sigma> (wid w) = None \<and> fst (getSigner_call E w \<sigma>) = Awaited (Inr s)"
  obtain r \<sigma>1 where x: "run_operation E w x \<sigma> = (r, \<sigma>1)" by (cases "run_operation E w x \<sigma>")
  have 1: "signers \<sigma>1 (wid w) = Some s"
      "signerFunc_calls (wid w) \<sigma>1 = signerFunc_calls (wid w) \<sigma> + 1"
    using run_operation_fresh [of \<sigma> w E x r \<sigma>1] a x by auto
  have "memo_stable (wid w) \<sigma>1 (snd (run_operations E w xs \<sigma>1))"
    using 1(1) by (rule run_operations_has)
  then show "signerFunc_calls (wid w) (snd (run_operations E w (x # xs) \<sigma>))
        = signerFunc_calls (wid w) \<sigma> + 1"
    using 1(2) x by (auto simp: memo_stable_def split: prod.splits)
next
  obtain r \<sigma>1 where x: "run_operation E w x \<sigma> = (r, \<sigma>1)" by (cases "run_operation E w x \<sigma>")
  show "signerFunc_calls (wid w) (snd (run_operation E w x \<sigma>)) \<le> signerFunc_calls (wid w) \<sigma> + 1"
  proof (cases "signers \<sigma> (wid w)")
    case None
    then show ?thesis using run_operation_fresh [of \<sigma> w E x r \<sigma>1] x by simp
  next
    case (Some s0)
    then show ?thesis using run_operation_has [of \<sigma> w s0 E x r \<sigma>1] x
      by (simp add: memo_stable_def)
  qed
qed

subsection \<open>Declined consent\<close>

lemma consent_message_not_inherited: "consent_message x \<notin> set Object_prototype_keys"
  by (cases x) (simp_all add: Object_prototype_keys_def)

lemma isAllowed_declined:
  assumes "\<not> plugin_yes w" and "\<not> allowed_get (allowed_of \<sigma> (wid w)) msg"
    and "choice_script \<sigma> = Some ''n'' # rest"
  shows "isAllowed w msg \<sigma>
         = (Inl (Error ''Cancelled.''),
            \<sigma>\<lparr>trace := trace \<sigma> @ [ChoicePrompt msg], choice_script := rest\<rparr>)"
  using assms
  by (simp add: isAllowed_def allowed_of_def Let_def bnd_def try_catch_def getChoice_def
        emit_def throw_def ret_def)

lemma refuses_bnd:
  assumes "keeps (quiet n) m" and "\<And>x. refuses n msg rest (f x)"
  shows "refuses n msg rest (bnd m f)"
  unfolding refuses_def
proof (intro allI impI, elim conjE)
  fix \<sigma> r \<sigma>'
  assume cs: "choice_script \<sigma> = Some ''n'' # rest"
    and na: "\<not> allowed_get (allowed_of \<sigma> n) msg"
    and run: "bnd m f \<sigma> = (r, \<sigma>')"
  obtain r1 \<sigma>1 where m: "m \<sigma> = (r1, \<sigma>1)" by (cases "m \<sigma>")
  then have q: "quiet n \<sigma> \<sigma>1" using assms(1) by (simp add: keeps_def)
  show "(\<exists>e. r = Inl e) \<and> memo_stable n \<sigma> \<sigma>' \<and> signing_calls n \<sigma>' = signing_calls n \<sigma>
        \<and> (choice_script \<sigma>' = rest \<longrightarrow> r = Inl (Error ''Cancelled.''))
        \<and> (choice_script \<sigma>' \<noteq> rest \<longrightarrow> choice_script \<sigma>' = Some ''n'' # rest)"
  proof (cases r1)
    case (Inl e)
    then have "r = Inl e" "\<sigma>' = \<sigma>1" using run m by (simp_all add: bnd_def)
    then show ?thesis using q cs by (simp add: quiet_def)
  next
    case (Inr x)
    then have fx: "f x \<sigma>1 = (r, \<sigma>')" using run m by (simp add: bnd_def)
    have "choice_script \<sigma>1 = Some ''n'' # rest" "\<not> allowed_get (allowed_of \<sigma>1 n) msg"
      using q cs na by (simp_all add: quiet_def allowed_of_def)
    then show ?thesis
      using assms(2) [of x] fx q unfolding refuses_def
      by (auto simp: quiet_def memo_stable_def)
  qed
qed

lemma refuses_isAllowed:
  assumes "\<not> plugin_yes w"
  shows "refuses (wid w) msg rest (bnd (isAllowed w msg) f)"
  unfolding refuses_def
proof (intro allI impI, elim conjE)
  fix \<sigma> r \<sigma>'
  assume cs: "choice_script \<sigma> = Some ''n'' # rest"
    and na: "\<not> allowed_get (allowed_of \<sigma> (wid w)) msg"
    and run: "bnd (isAllowed w msg) f \<sigma> = (r, \<sigma>')"
  have "r = Inl (Error ''Cancelled.'')"
       "\<sigma>' = \<sigma>\<lparr>trace := trace \<sigma> @ [ChoicePrompt msg], choice_script := rest\<rparr>"
    using run isAllowed_declined [OF assms na cs] by (simp_all add: bnd_def)
  then show "(\<exists>e. r = Inl e) \<and> memo_stable (wid w) \<sigma> \<sigma>'
        \<and> signing_calls (wid w) \<sigma>' = signing_calls (wid w) \<sigma>
        \<and> (choice_script \<sigma>' = rest \<longrightarrow> r = Inl (Error ''Cancelled.''))
        \<and> (choice_script \<sigma>' \<noteq> rest \<longrightarrow> choice_script \<sigma>' = Some ''n'' # rest)"
    by (simp add: memo_stable_def signerFunc_calls_def signing_calls_def)
qed

lemmas refuses_intros =
  refuses_isAllowed refuses_bnd quiet_lift quiet_dump quiet_populate

lemma gated_operation_getSigner:
  assumes "\<not> plugin_yes w" and "x \<noteq> OpUnlock"
  shows "\<exists>f. run_operation E w x = bnd (getSigner E w) f
            \<and> (\<forall>s. refuses (wid w) (consent_message x) rest (f s))"
proof (cases x)
  case (OpSignMessage m)
  show ?thesis
    unfolding OpSignMessage run_operation.simps signMessage_def bnd_assoc consent_message.simps
    by (rule exI, rule conjI, rule refl) (intro allI refuses_intros assms)
next
  case (OpSignTransaction t)
  show ?thesis
    unfolding OpSignTransaction run_operation.simps signTransaction_def bnd_assoc
      consent_message.simps
    by (rule exI, rule conjI, rule refl) (intro allI refuses_intros assms)
next
  case (OpSendTransaction t)
  show ?thesis
    unfolding OpSendTransaction run_operation.simps sendTransaction_def bnd_assoc
      consent_message.simps
    by (rule exI, rule conjI, rule refl) (intro allI refuses_intros assms)
next
  case OpUnlock
  then show ?thesis using assms by simp
qed

text \<open>
  Claim C1, as amended. Let the user's next answer be \<^verbatim>\<open>n\<close>, with no auto-confirm and no
  standing permission for the question of the gated operation. Then the operation throws
  and the real signer is never asked to sign or send. If the answer was consumed, that
  is, the consent question was reached and declined, the error is \<^verbatim>\<open>Cancelled.\<close>, and
  by then the real signer has been materialized: it is stored, and if it was not stored
  before, the factory has been invoked once (before the question was asked).
\<close>

theorem decline_aborts_after_materialization:
  assumes "\<not> plugin_yes w" and "x \<noteq> OpUnlock"
    and "consent_message x \<notin> set (allowed_of \<sigma> (wid w))"
    and "choice_script \<sigma> = Some ''n'' # rest"
    and "run_operation E w x \<sigma> = (r, \<sigma>')"
  shows "(\<exists>e. r = Inl e)
       \<and> signing_calls (wid w) \<sigma>' = signing_calls (wid w) \<sigma>
       \<and> (choice_script \<sigma>' = rest \<longrightarrow>
            r = Inl (Error ''Cancelled.'') \<and> signers \<sigma>' (wid w) \<noteq> None
            \<and> (signers \<sigma> (wid w) = None \<longrightarrow>
                 signerFunc_calls (wid w) \<sigma>' = signerFunc_calls (wid w) \<sigma> + 1))"
proof -
  let ?n = "wid w" and ?msg = "consent_message x"
  obtain f where f: "run_operation E w x = bnd (getSigner E w) f"
      "\<And>s. refuses ?n ?msg rest (f s)"
    using gated_operation_getSigner [OF assms(1,2)] by blast
  have na: "\<not> allowed_get (allowed_of \<sigma> ?n) ?msg"
    using assms(3) consent_message_not_inherited by (simp add: allowed_get_def)
  obtain r1 \<sigma>1 where g: "getSigner E w \<sigma> = (r1, \<sigma>1)" by (cases "getSigner E w \<sigma>")
  have neq: "Some ''n'' # rest \<noteq> rest" by simp
  show ?thesis
  proof (cases "signers \<sigma> ?n")
    case (Some s0)
    then have "f s0 \<sigma> = (r, \<sigma>')"
      using assms(5) f(1) getSigner_has [OF Some, of E] by (simp add: bnd_def)
    then show ?thesis
      using f(2) [of s0] na assms(4) Some unfolding refuses_def
      by (auto simp: memo_stable_def)
  next
    case None
    note fr = getSigner_fresh [OF None g, of ?n]
    show ?thesis
    proof (cases r1)
      case (Inl e)
      then have "r = Inl e" "\<sigma>' = \<sigma>1" using assms(5) f(1) g by (simp_all add: bnd_def)
      then show ?thesis using fr assms(4) neq by simp
    next
      case (Inr s1)
      then have fx: "f s1 \<sigma>1 = (r, \<sigma>')" using assms(5) f(1) g by (simp add: bnd_def)
      have pre: "choice_script \<sigma>1 = Some ''n'' # rest" "\<not> allowed_get (allowed_of \<sigma>1 ?n) ?msg"
        using fr assms(4) na by (simp_all add: allowed_of_def)
      show ?thesis
        using f(2) [of s1] fx pre fr Inr unfolding refuses_def
        by (auto simp: memo_stable_def)
    qed
  qed
qed

subsection \<open>The consent protocol\<close>

lemmas run_defs =
  signMessage_def signTransaction_def sendTransaction_def unlock_def getSigner_def
  getSigner_call_def signers_get_def isAllowed_def getChoice_def getPassword_def
  getProgressBar_def dump_def emit_def call_signer_def bnd_def ret_def throw_def lift_def
  try_catch_def allowed_get_def Object_prototype_keys_def message_info_def
  signature_info_def transaction_info_def Let_def

lemmas ex_defs =
  ex_env_def ex_wrapper_def ex_signer_def ex_provider_def ex_network_def start_def
  registered_def ex_wallet_func_def

text \<open>
  Claim C7. For the consent question of every gated operation of a proxy: with the
  auto-confirm flag set, consent is granted at once, with a note and no prompt;
  otherwise, if the same message was answered \<^verbatim>\<open>a\<close> (always) before on this proxy,
  consent is granted at once, with a note and no prompt; otherwise the user is prompted,
  and the answer \<^verbatim>\<open>a\<close> grants consent and records the message under this proxy's
  identity, so that the same question is then granted without a prompt.
\<close>

theorem isAllowed_consent_protocol:
  "(plugin_yes w \<longrightarrow>
      isAllowed w (consent_message x) \<sigma>
        = (Inr True, \<sigma>\<lparr>trace := trace \<sigma> @ [Log (consent_message x @ '' (--yes => \"y\")'')]\<rparr>))
   \<and> (\<not> plugin_yes w \<and> consent_message x \<in> set (allowed_of \<sigma> (wid w)) \<longrightarrow>
      isAllowed w (consent_message x) \<sigma>
        = (Inr True,
           \<sigma>\<lparr>trace := trace \<sigma> @ [Log (consent_message x @ '' (previous (a)ll => \"y\")'')]\<rparr>))
   \<and> (\<not> plugin_yes w \<and> consent_message x \<notin> set (allowed_of \<sigma> (wid w)) \<longrightarrow>
      trace (snd (isAllowed w (consent_message x) \<sigma>)) = trace \<sigma> @ [ChoicePrompt (consent_message x)])
   \<and> (\<not> plugin_yes w \<and> consent_message x \<notin> set (allowed_of \<sigma> (wid w))
        \<and> choice_script \<sigma> = Some ''a'' # rest \<longrightarrow>
      (let \<sigma>1 = \<sigma>\<lparr>alwaysAllow := (alwaysAllow \<sigma>)
                       (wid w \<mapsto> allowed_of \<sigma> (wid w) @ [consent_message x]),
                    choice_script := rest,
                    trace := trace \<sigma> @ [ChoicePrompt (consent_message x)]\<rparr>
       in isAllowed w (consent_message x) \<sigma> = (Inr True, \<sigma>1)
          \<and> isAllowed w (consent_message x) \<sigma>1
              = (Inr True, \<sigma>1\<lparr>trace := trace \<sigma>1 @
                   [Log (consent_message x @ '' (previous (a)ll => \"y\")'')]\<rparr>)))"
proof -
  have ni: "consent_message x \<notin> set Object_prototype_keys"
    by (rule consent_message_not_inherited)
  show ?thesis
    using ni
    by (auto simp: isAllowed_def allowed_of_def allowed_get_def Let_def bnd_def try_catch_def
          getChoice_def emit_def throw_def ret_def
        split: list.splits option.splits)
qed

subsection \<open>Examples\<close>

theorem isAllowed_consent_protocol_witness:
  "isAllowed (ex_wrapper True) ''Sign Message?'' (start [] [])
     = (Inr True, (start [] [])\<lparr>trace := [Log ''Sign Message? (--yes => \"y\")'']\<rparr>)
   \<and> trace (snd (isAllowed (ex_wrapper False) ''Sign Message?'' (start [Some ''y''] [])))
       = [ChoicePrompt ''Sign Message?'']
   \<and> isAllowed (ex_wrapper False) ''Sign Message?'' (start [Some ''a''] [])
       = (Inr True, (start [] [])\<lparr>alwaysAllow := [0 \<mapsto> [''Sign Message?'']],
                                  trace := [ChoicePrompt ''Sign Message?'']\<rparr>)
   \<and> isAllowed (ex_wrapper False) ''Sign Message?''
         ((start [] [])\<lparr>alwaysAllow := [0 \<mapsto> [''Sign Message?'']],
                        trace := [ChoicePrompt ''Sign Message?'']\<rparr>)
       = (Inr True, (start [] [])\<lparr>alwaysAllow := [0 \<mapsto> [''Sign Message?'']],
            trace := [ChoicePrompt ''Sign Message?'',
                      Log ''Sign Message? (previous (a)ll => \"y\")'']\<rparr>)"
  using isAllowed_consent_protocol [of "ex_wrapper True" "OpSignMessage (Text ''hi'')" "start [] []"]
    isAllowed_consent_protocol [of "ex_wrapper False" "OpSignMessage (Text ''hi'')"
       "start [Some ''y''] []"]
    isAllowed_consent_protocol [of "ex_wrapper False" "OpSignMessage (Text ''hi'')"
       "start [Some ''a''] []" "[]"]
    isAllowed_consent_protocol [of "ex_wrapper False" "OpSignMessage (Text ''hi'')"
       "(start [] [])\<lparr>alwaysAllow := [0 \<mapsto> [''Sign Message?'']],
                        trace := [ChoicePrompt ''Sign Message?'']\<rparr>"]
  by (simp add: ex_wrapper_def start_def allowed_of_def Let_def)


text \<open>
  Claim C1 as stated fails. For a JSON wallet identity and a user whose answer to the
  consent question is \<^verbatim>\<open>n\<close>, \<^verbatim>\<open>signMessage\<close> throws \<^verbatim>\<open>Cancelled.\<close>, but the
  factory has been invoked, the password asked for and the wallet decrypted before the
  question is put.
\<close>

theorem decline_after_materialization_counterexample:
  "fst (signMessage ex_env (ex_wrapper False) (Text ''hi'')
          (registered ex_wallet_func (start [Some ''n''] [Some ''secret''])))
     = Inl (Error ''Cancelled.'')
   \<and> trace (snd (signMessage ex_env (ex_wrapper False) (Text ''hi'')
          (registered ex_wallet_func (start [Some ''n''] [Some ''secret'']))))
     = [SignerFuncCall 0, PasswordPrompt ''Password (wallet.json): '', ProgressBar ''Decrypting'',
        Dump ''Message:'' [(''Message'', IStr ''hi''), (''Message (hex)'', IStr ''0x'')],
        ChoicePrompt ''Sign Message?'']"
  by (simp add: run_defs ex_defs)

theorem decline_aborts_after_materialization_witness:
  "fst (run_operation ex_env (ex_wrapper False) (OpSendTransaction
          \<lparr>tx_to = Some ''0xTO'', tx_from = None, tx_value = Some 1, tx_nonce = None,
           tx_gasLimit = None, tx_gasPrice = None, tx_chainId = None, tx_data = None\<rparr>)
          (registered (Settled (Inr ex_signer)) (start [Some ''n''] [])))
     = Inl (Error ''Cancelled.'')
   \<and> signing_calls 0 (snd (run_operation ex_env (ex_wrapper False) (OpSendTransaction
          \<lparr>tx_to = Some ''0xTO'', tx_from = None, tx_value = Some 1, tx_nonce = None,
           tx_gasLimit = None, tx_gasPrice = None, tx_chainId = None, tx_data = None\<rparr>)
          (registered (Settled (Inr ex_signer)) (start [Some ''n''] [])))) = []
   \<and> signers (snd (run_operation ex_env (ex_wrapper False) (OpSendTransaction
          \<lparr>tx_to = Some ''0xTO'', tx_from = None, tx_value = Some 1, tx_nonce = None,
           tx_gasLimit = None, tx_gasPrice = None, tx_chainId = None, tx_data = None\<rparr>)
          (registered (Settled (Inr ex_signer)) (start [Some ''n''] [])))) 0 \<noteq> None
   \<and> signerFunc_calls 0 (snd (run_operation ex_env (ex_wrapper False) (OpSendTransaction
          \<lparr>tx_to = Some ''0xTO'', tx_from = None, tx_value = Some 1, tx_nonce = None,
           tx_gasLimit = None, tx_gasPrice = None, tx_chainId = None, tx_data = None\<rparr>)
          (registered (Settled (Inr ex_signer)) (start [Some ''n''] [])))) = 1"
proof -
  let ?w = "ex_wrapper False"
  let ?x = "OpSendTransaction
          \<lparr>tx_to = Some ''0xTO'', tx_from = None, tx_value = Some 1, tx_nonce = None,
           tx_gasLimit = None, tx_gasPrice = None, tx_chainId = None, tx_data = None\<rparr>"
  let ?\<sigma> = "registered (Settled (Inr ex_signer)) (start [Some ''n''] [])"
  let ?R = "run_operation ex_env ?w ?x ?\<sigma>"
  have h1: "\<not> plugin_yes ?w" by (simp add: ex_wrapper_def)
  have h2: "?x \<noteq> OpUnlock" by simp
  have h3: "consent_message ?x \<notin> set (allowed_of ?\<sigma> (wid ?w))"
    by (simp add: allowed_of_def ex_defs)
  have h4: "choice_script ?\<sigma> = Some ''n'' # []" by (simp add: ex_defs)
  have h5: "?R = (fst ?R, snd ?R)" by simp
  have c: "choice_script (snd ?R) = []" by (simp add: run_defs ex_defs)
  have s: "signers ?\<sigma> (wid ?w) = None" "signing_calls 0 ?\<sigma> = []" "signerFunc_calls 0 ?\<sigma> = 0"
    "wid ?w = 0"
    by (simp_all add: ex_defs signing_calls_def signerFunc_calls_def)
  show ?thesis
    using decline_aborts_after_materialization [OF h1 h2 h3 h4 h5] c s by simp
qed

text \<open>
  Claim C2 as stated fails. After a wrong password the next operation invokes the factory
  again; and a second \<^verbatim>\<open>getSigner\<close> started while the first is suspended invokes the
  factory a second time, for a JSON wallet (a second prompt and decryption) as for a
  signer that is already live.
\<close>

theorem factory_invoked_twice_counterexample:
  "signerFunc_calls 0 (snd (run_operations ex_env (ex_wrapper True) [OpUnlock, OpUnlock]
       (registered ex_wallet_func (start [] [Some ''guess'', Some ''secret''])))) = 2
   \<and> signerFunc_calls 0 (snd (getSigner_overlapped ex_env (ex_wrapper True)
       (registered ex_wallet_func (start [] [Some ''secret'', Some ''secret''])))) = 2
   \<and> trace (snd (getSigner_overlapped ex_env (ex_wrapper True)
       (registered (Settled (Inr ex_signer)) (start [] []))))
     = [SignerFuncCall 0, SignerFuncCall 0]"
  by (simp add: run_defs ex_defs signerFunc_calls_def getSigner_overlapped_def)

theorem factory_not_invoked_again_witness:
  "signerFunc_calls 0 (snd (run_operations ex_env (ex_wrapper True)
       [OpUnlock, OpSignMessage (Text ''hi''), OpUnlock]
       (registered ex_wallet_func (start [] [Some ''secret''])))) = 1
   \<and> signerFunc_calls 0 (snd (run_operations ex_env (ex_wrapper True)
       [OpSignMessage (Text ''hi''), OpUnlock]
       ((registered ex_wallet_func (start [] []))\<lparr>signers := [0 \<mapsto> ex_signer]\<rparr>))) = 0"
proof -
  let ?w = "ex_wrapper True"
  let ?\<sigma> = "registered ex_wallet_func (start [] [Some ''secret''])"
  let ?\<sigma>' = "(registered ex_wallet_func (start [] []))\<lparr>signers := [0 \<mapsto> ex_signer]\<rparr>"
  have a: "signers ?\<sigma> (wid ?w) = None \<and> fst (getSigner_call ex_env ?w ?\<sigma>) = Awaited (Inr ex_signer)"
    by (simp add: run_defs ex_defs)
  have b: "signers ?\<sigma>' (wid ?w) \<noteq> None" by (simp add: ex_defs)
  have z: "signerFunc_calls (wid ?w) ?\<sigma> = 0" "signerFunc_calls (wid ?w) ?\<sigma>' = 0" "wid ?w = 0"
    by (simp_all add: ex_defs signerFunc_calls_def)
  show ?thesis
    using factory_not_invoked_again [of ?\<sigma> ?w ex_env "[OpSignMessage (Text ''hi''), OpUnlock]"
        ex_signer OpUnlock]
      factory_not_invoked_again [of ?\<sigma>' ?w ex_env "[OpSignMessage (Text ''hi''), OpUnlock]"]
      a b z
    by simp
qed

section \<open>Properties of the account loader and the options pipeline\<close>

subsection \<open>Unpacking a successful run\<close>

lemma andThen_InrE:
  assumes "andThen r f = Inr y"
  obtains x where "r = Inr x" and "f x = Inr y"
  using assms by (cases r) (auto simp: andThen_def)

lemma bnd_InrE:
  assumes "bnd m f \<sigma> = (Inr y, \<sigma>')"
  obtains x \<sigma>1 where "m \<sigma> = (Inr x, \<sigma>1)" and "f x \<sigma>1 = (Inr y, \<sigma>')"
proof -
  obtain r1 \<sigma>1 where m: "m \<sigma> = (r1, \<sigma>1)" by (cases "m \<sigma>")
  show thesis
  proof (cases r1)
    case (Inl e)
    then show ?thesis using assms m by (simp add: bnd_def)
  next
    case (Inr x)
    then show ?thesis using assms m that by (simp add: bnd_def)
  qed
qed

lemma lift_InrE:
  assumes "lift r \<sigma> = (Inr x, \<sigma>')"
  obtains "r = Inr x" and "\<sigma>' = \<sigma>"
  using assms by (simp add: lift_def)

lemma consumeFlag_args: "consumeFlag n p = Inr (b, p') \<Longrightarrow> args p' = args p"
  by (auto simp: consumeFlag_def split: prod.splits if_splits)

lemma consumeMultiOptions_args: "consumeMultiOptions ns p = Inr (r, p') \<Longrightarrow> args p' = args p"
  by (auto simp: consumeMultiOptions_def split: sum.splits prod.splits)

lemma consumeOptions_args: "consumeOptions n p = Inr (r, p') \<Longrightarrow> args p' = args p"
  by (auto simp: consumeOptions_def split: sum.splits prod.splits dest: consumeMultiOptions_args)

lemma consumeOption_args: "consumeOption n p = Inr (r, p') \<Longrightarrow> args p' = args p"
  by (auto simp: consumeOption_def split: sum.splits prod.splits if_splits
      dest: consumeOptions_args)

lemma flag_provider_args: "flag_provider f new n p = Inr (r, p') \<Longrightarrow> args p' = args p"
  by (auto simp: flag_provider_def andThen_def split: sum.splits prod.splits if_splits
      dest: consumeFlag_args)

lemma option_with_args: "option_with opt conv p = Inr (r, p') \<Longrightarrow> args p' = args p"
  by (auto simp: option_with_def andThen_def split: sum.splits prod.splits if_splits jsval.splits
      dest: consumeOption_args)

lemma prepare_provider_args:
  assumes "prepare_provider E p = Inr (r, p')"
  shows "args p' = args p"
  using assms unfolding prepare_provider_def
  by (auto elim!: andThen_InrE
      dest!: consumeFlag_args consumeOption_args consumeOptions_args flag_provider_args)

lemma consumeMultiOptions_loop_marks:
  "map_sum id snd (consumeMultiOptions_loop names as i cs result)
   = map_sum id snd (consumeMultiOptions_loop names as i cs' result)"
proof (induction names as i cs result arbitrary: cs' rule: consumeMultiOptions_loop.induct)
  case (1 names as i cs result)
  show ?case
  proof (cases "i < length as")
    case False
    then show ?thesis by (simp add: consumeMultiOptions_loop.simps [of names as i])
  next
    case lt: True
    show ?thesis
    proof (cases "as ! i = ''--''")
      case True
      then show ?thesis using lt by (simp add: consumeMultiOptions_loop.simps [of names as i])
    next
      case ne: False
      show ?thesis
      proof (cases "take 2 (as ! i) = ''--''")
        case False
        then show ?thesis
          using lt ne "1.IH"(3) [OF lt refl ne, of cs']
          by (simp add: consumeMultiOptions_loop.simps [of names as i] Let_def)
      next
        case pre: True
        show ?thesis
        proof (cases "indexOf names (drop 2 (as ! i)) < 0")
          case True
          then show ?thesis
            using lt ne pre "1.IH"(1) [OF lt refl ne pre refl refl, of cs']
            by (simp add: consumeMultiOptions_loop.simps [of names as i] Let_def)
        next
          case False
          have n: "length as \<noteq> i" using lt by simp
          show ?thesis
            using lt ne pre False n
              "1.IH"(2) [OF lt refl ne pre refl refl False n refl refl refl,
                 of "aset (aset cs' i True) (i + 1) True"]
            by (simp add: consumeMultiOptions_loop.simps [of names as i] Let_def)
        qed
      qed
    qed
  qed
qed

lemma consumeOption_marks:
  assumes "consumeOption n p = Inr (v, p')" and "args q = args p"
  shows "\<exists>q'. consumeOption n q = Inr (v, q')"
proof -
  have "map_sum id snd (consumeMultiOptions_loop [n] (args p) 0 (consumed p) [])
        = map_sum id snd (consumeMultiOptions_loop [n] (args q) 0 (consumed q) [])"
    using assms(2) consumeMultiOptions_loop_marks [of "[n]" "args p" 0 "consumed p" "[]" "consumed q"]
    by simp
  then show ?thesis using assms(1)
    by (auto simp: consumeOption_def consumeOptions_def consumeMultiOptions_def
        split: sum.splits prod.splits if_splits)
qed

subsection \<open>The stages of \<^verbatim>\<open>prepareOptions\<close>\<close>

lemma prepareOptions_configure:
  "prepareOptions E argParser \<sigma> =
     (case configureOptions E argParser \<sigma> of
        (Inl e, \<sigma>') \<Rightarrow> (Inl e, \<sigma>')
      | (Inr (this, p), \<sigma>') \<Rightarrow>
          (Inr (this\<lparr>network := Some (case getNetwork (provider this) of
                                          Inr n \<Rightarrow> n
                                        | Inl e \<Rightarrow> \<lparr>chainId = 0, net_name = ''no-network''\<rparr>)\<rparr>,
                p), \<sigma>'))"
  by (auto simp: prepareOptions_def network_runner_def bnd_def try_catch_def ret_def throw_def
      split: prod.splits sum.splits)

lemma configureOptions_parts:
  assumes "configureOptions E argParser \<sigma> = (Inr (this, p), \<sigma>')"
  obtains yes0 prov rpc p1 opts p2 accs where
    "prepare_provider E argParser = Inr ((yes0, prov, rpc), p1)"
    "consumeMultiOptions [''account'', ''account-rpc'', ''account-void''] p1 = Inr (opts, p2)"
    "load_accounts E prov yes0 rpc opts \<sigma> = (Inr accs, \<sigma>')"
    "prepare_transaction_options E
       \<lparr>network = None, provider = prov, accounts = accs, gasLimit = None,
        gasPrice = None, nonce = None, data = None, value = None, yes = yes0\<rparr> p2
     = Inr (this, p)"
  using assms unfolding configureOptions_def
  by (auto elim!: bnd_InrE lift_InrE)

lemma option_with_value:
  assumes "option_with opt conv p2 = Inr (r, p3)" and "args p2 = args p"
    and "consumeOption opt p = Inr (Str g, q)" and "g \<noteq> []"
  shows "\<exists>x. conv g = Inr x \<and> r = Some x"
proof -
  obtain q' where "consumeOption opt p2 = Inr (Str g, q')"
    using consumeOption_marks [OF assms(3), of p2] assms(2) by auto
  then show ?thesis using assms(1,4)
    by (auto simp: option_with_def andThen_def split: sum.splits)
qed

lemma prepare_transaction_options_units:
  assumes "prepare_transaction_options E this0 p2 = Inr (this, p')" and "args p2 = args p"
  shows "(consumeOption ''gas-price'' p = Inr (Str g, q) \<and> g \<noteq> [] \<longrightarrow>
            (\<exists>x. parseUnits g 9 = Inr x \<and> gasPrice this = Some x))
       \<and> (consumeOption ''value'' p = Inr (Str v, q') \<and> v \<noteq> [] \<longrightarrow>
            (\<exists>x. parseUnits v 18 = Inr x \<and> value this = Some x))"
proof -
  from assms(1) obtain gasPrice0 p3 gasLimit0 p4 nonce0 p5 value0 p6 data0 where
    1: "option_with ''gas-price'' parseUnits_gwei p2 = Inr (gasPrice0, p3)" and
    2: "option_with ''gas-limit'' (BigNumber_from E) p3 = Inr (gasLimit0, p4)" and
    3: "option_with ''nonce'' (\<lambda>s. andThen (BigNumber_from E s) (toNumber E)) p4 = Inr (nonce0, p5)" and
    4: "option_with ''value'' parseEther p5 = Inr (value0, p6)" and
    5: "option_with ''data'' (hexlify E) p6 = Inr (data0, p')" and
    6: "this = this0\<lparr>gasPrice := gasPrice0, gasLimit := gasLimit0, nonce := nonce0,
               value := value0, data := data0\<rparr>"
    unfolding prepare_transaction_options_def
    by (auto elim!: andThen_InrE)
  have a5: "args p5 = args p"
    using option_with_args [OF 1] option_with_args [OF 2] option_with_args [OF 3] assms(2)
    by simp
  show ?thesis
    using option_with_value [OF 1 assms(2), of g q] option_with_value [OF 4 a5, of v q'] 6
    by (auto simp: parseUnits_gwei_def parseEther_def)
qed

subsection \<open>Units\<close>

lemma digit_of_point [simp]: "digit_of CHR ''.'' = None"
  by (simp add: digit_of_def)

lemma digit_of_minus [simp]: "digit_of CHR ''-'' = None"
  by (simp add: digit_of_def)

lemma digits_value_not_point:
  "digits_value acc ds = Some n \<Longrightarrow> CHR ''.'' \<notin> set ds"
  by (induction ds arbitrary: acc) (auto split: option.splits)

lemma consumeMultiOptions_loop_done:
  "\<not> i < length as \<Longrightarrow> consumeMultiOptions_loop names as i cs r = Inr (cs, r)"
  by (simp add: consumeMultiOptions_loop.simps [of names as i])

lemma consumeMultiOptions_loop_separator:
  "i < length as \<Longrightarrow> as ! i = ''--'' \<Longrightarrow>
   consumeMultiOptions_loop names as i cs r = Inr (cs, r)"
  by (simp add: consumeMultiOptions_loop.simps [of names as i])

lemma consumeMultiOptions_loop_positional:
  "i < length as \<Longrightarrow> as ! i \<noteq> ''--'' \<Longrightarrow> take 2 (as ! i) \<noteq> ''--'' \<Longrightarrow>
   consumeMultiOptions_loop names as i cs r = consumeMultiOptions_loop names as (i + 1) cs r"
  by (simp add: consumeMultiOptions_loop.simps [of names as i])

lemma consumeMultiOptions_loop_other:
  "i < length as \<Longrightarrow> as ! i \<noteq> ''--'' \<Longrightarrow> take 2 (as ! i) = ''--'' \<Longrightarrow>
   indexOf names (drop 2 (as ! i)) < 0 \<Longrightarrow>
   consumeMultiOptions_loop names as i cs r = consumeMultiOptions_loop names as (i + 1) cs r"
  by (simp add: consumeMultiOptions_loop.simps [of names as i])

lemma consumeMultiOptions_loop_hit:
  "i < length as \<Longrightarrow> as ! i \<noteq> ''--'' \<Longrightarrow> take 2 (as ! i) = ''--'' \<Longrightarrow>
   \<not> indexOf names (drop 2 (as ! i)) < 0 \<Longrightarrow>
   consumeMultiOptions_loop names as i cs r
     = consumeMultiOptions_loop names as (i + 2) (aset (aset cs i True) (i + 1) True)
         (r @ [(drop 2 (as ! i), aget as (i + 1))])"
  by (subst consumeMultiOptions_loop.simps) (auto simp: Let_def)

lemmas parser_eval =
  consumeMultiOptions_loop_done consumeMultiOptions_loop_separator
  consumeMultiOptions_loop_positional consumeMultiOptions_loop_other
  consumeMultiOptions_loop_hit consumeFlag_hits consumeMultiOptions_def consumeOptions_def
  consumeOption_def new_ArgParser_def aset_def aget_def Let_def

lemmas pipeline_defs =
  prepareOptions_def configureOptions_def prepare_provider_def flag_provider_def
  select_provider_def prepare_transaction_options_def option_with_def network_runner_def
  andThen_def parseUnits_gwei_def parseEther_def parseUnits_def
  account_rpc_def account_void_def loadAccount_json_def

lemma parseUnits_whole:
  assumes "digits_value 0 ds = Some n" and "ds \<noteq> []"
  shows "parseUnits ds k = Inr (int n * 10 ^ k)"
proof -
  have np: "CHR ''.'' \<notin> set ds" using assms(1) by (rule digits_value_not_point)
  then have tw: "takeWhile (\<lambda>c. c \<noteq> CHR ''.'') ds = ds" "dropWhile (\<lambda>c. c \<noteq> CHR ''.'') ds = []"
    by auto
  obtain c cs where ds: "ds = c # cs" using assms(2) by (cases ds) auto
  have "digit_of c \<noteq> None" using assms(1) ds by (auto split: option.splits)
  then have "c \<noteq> CHR ''-''" by auto
  then have neg: "take (Suc 0) ds \<noteq> ''-''" using ds by simp
  show ?thesis
    by (simp add: parseUnits_def Let_def tw neg assms)
qed

lemma gas_price_5: "parseUnits ''5'' 9 = Inr 5000000000"
  by (simp add: parseUnits_def Let_def digit_of_def)

lemma value_1_5: "parseUnits ''1.5'' 18 = Inr 1500000000000000000"
  by (simp add: parseUnits_def Let_def digit_of_def)

lemma example_options:
  "\<exists>q. consumeOption ''gas-price'' (new_ArgParser [''--gas-price'', ''5'', ''--value'', ''1.5''])
        = Inr (Str ''5'', q)"
  "\<exists>q. consumeOption ''value'' (new_ArgParser [''--gas-price'', ''5'', ''--value'', ''1.5''])
        = Inr (Str ''1.5'', q)"
  by (simp_all add: parser_eval)

text \<open>
  Claim C9. In every successful run of \<^verbatim>\<open>prepareOptions\<close>, the context's gas price is
  the \<^verbatim>\<open>--gas-price\<close> value read as gwei (for a whole number, times \<open>10\<^sup>9\<close>) and its value
  is the \<^verbatim>\<open>--value\<close> value read as ether (for a whole number, times \<open>10\<^sup>1\<^sup>8\<close>); and on the
  tokens \<^verbatim>\<open>--gas-price 5 --value 1.5\<close> the context holds the gas price 5000000000 and
  the value 1500000000000000000.
\<close>

theorem prepareOptions_converts_units:
  assumes "prepareOptions E argParser \<sigma> = (Inr (this, p'), \<sigma>')"
  shows "(consumeOption ''gas-price'' argParser = Inr (Str g, q) \<and> g \<noteq> [] \<longrightarrow>
            (\<exists>x. parseUnits g 9 = Inr x \<and> gasPrice this = Some x)
            \<and> (\<forall>n. digits_value 0 g = Some n \<longrightarrow> gasPrice this = Some (int n * 10 ^ 9)))
       \<and> (consumeOption ''value'' argParser = Inr (Str v, q') \<and> v \<noteq> [] \<longrightarrow>
            (\<exists>x. parseUnits v 18 = Inr x \<and> value this = Some x)
            \<and> (\<forall>n. digits_value 0 v = Some n \<longrightarrow> value this = Some (int n * 10 ^ 18)))
       \<and> (args argParser = [''--gas-price'', ''5'', ''--value'', ''1.5''] \<longrightarrow>
            gasPrice this = Some 5000000000 \<and> value this = Some 1500000000000000000)"
proof -
  obtain this0 \<sigma>1 where c: "configureOptions E argParser \<sigma> = (Inr (this0, p'), \<sigma>1)"
    and t: "gasPrice this = gasPrice this0" "value this = value this0"
    using assms unfolding prepareOptions_configure
    by (auto split: prod.splits sum.splits)
  from c obtain yes0 prov rpc p1 opts p2 accs where
    pp: "prepare_provider E argParser = Inr ((yes0, prov, rpc), p1)" and
    mo: "consumeMultiOptions [''account'', ''account-rpc'', ''account-void''] p1 = Inr (opts, p2)" and
    tx: "prepare_transaction_options E
           \<lparr>network = None, provider = prov, accounts = accs, gasLimit = None,
            gasPrice = None, nonce = None, data = None, value = None, yes = yes0\<rparr> p2
         = Inr (this0, p')"
    by (rule configureOptions_parts)
  have a2: "args p2 = args argParser"
    using prepare_provider_args [OF pp] consumeMultiOptions_args [OF mo] by simp
  note u = prepare_transaction_options_units [OF tx a2]
  have gen: "(consumeOption ''gas-price'' argParser = Inr (Str g, q) \<and> g \<noteq> [] \<longrightarrow>
            (\<exists>x. parseUnits g 9 = Inr x \<and> gasPrice this = Some x))
       \<and> (consumeOption ''value'' argParser = Inr (Str v, q') \<and> v \<noteq> [] \<longrightarrow>
            (\<exists>x. parseUnits v 18 = Inr x \<and> value this = Some x))" for g q v q'
    using u [of g q v q'] t by simp
  have ex: "gasPrice this = Some 5000000000 \<and> value this = Some 1500000000000000000"
    if a: "args argParser = [''--gas-price'', ''5'', ''--value'', ''1.5'']"
  proof -
    let ?n = "new_ArgParser [''--gas-price'', ''5'', ''--value'', ''1.5'']"
    have an: "args argParser = args ?n" using a by (simp add: new_ArgParser_def)
    obtain q1 where q1: "consumeOption ''gas-price'' ?n = Inr (Str ''5'', q1)"
      using example_options(1) by blast
    obtain q2 where q2: "consumeOption ''value'' ?n = Inr (Str ''1.5'', q2)"
      using example_options(2) by blast
    obtain r1 where r1: "consumeOption ''gas-price'' argParser = Inr (Str ''5'', r1)"
      using consumeOption_marks [OF q1 an] by blast
    obtain r2 where r2: "consumeOption ''value'' argParser = Inr (Str ''1.5'', r2)"
      using consumeOption_marks [OF q2 an] by blast
    show ?thesis
      using gen [of "''5''" r1 "''1.5''" r2] r1 r2 gas_price_5 value_1_5 by simp
  qed
  show ?thesis
    using gen [of g q v q'] ex parseUnits_whole [of g _ 9] parseUnits_whole [of v _ 18]
    by auto
qed

theorem prepareOptions_converts_units_witness:
  "\<exists>this p' \<sigma>'.
     prepareOptions ex_env (new_ArgParser [''--gas-price'', ''5'', ''--value'', ''1.5''])
       (start [] []) = (Inr (this, p'), \<sigma>')
     \<and> gasPrice this = Some 5000000000 \<and> value this = Some 1500000000000000000"
proof -
  let ?p = "new_ArgParser [''--gas-price'', ''5'', ''--value'', ''1.5'']"
  let ?R = "prepareOptions ex_env ?p (start [] [])"
  have "\<exists>this p' \<sigma>'. ?R = (Inr (this, p'), \<sigma>')"
    by (simp add: parser_eval pipeline_defs ex_env_def start_def bnd_def lift_def ret_def
          try_catch_def ex_provider_def digit_of_def)
  then obtain this p' \<sigma>' where r: "?R = (Inr (this, p'), \<sigma>')" by blast
  have "args ?p = [''--gas-price'', ''5'', ''--value'', ''1.5'']" by (simp add: new_ArgParser_def)
  then show ?thesis
    using prepareOptions_converts_units [OF r] r by blast
qed

subsection \<open>Account classification and decryption errors\<close>

lemma loadAccount_sentinel:
  "loadAccount E (Str ''-'') prov yes0 \<sigma> =
     (case getPassword ''Private Key / Mnemonic:'' \<sigma> of
        (Inl e, \<sigma>') \<Rightarrow> (Inl e, \<sigma>')
      | (Inr content, \<sigma>') \<Rightarrow> loadAccount E (Str content) prov yes0 \<sigma>')"
  by (subst loadAccount.simps) simp

lemma loadAccount_direct:
  "arg \<noteq> Str ''-'' \<Longrightarrow>
   loadAccount E arg prov yes0 \<sigma> =
     (if isHexString32 E arg then
        bnd (lift (new_Wallet E arg prov)) (\<lambda>signer.
          new_WrappedSigner (signer_getAddress signer) (Settled (Inr signer)) prov yes0) \<sigma>
      else if isValidMnemonic E arg then
        bnd (lift (Wallet_fromMnemonic E arg prov)) (\<lambda>signer.
          new_WrappedSigner (signer_getAddress signer) (Settled (Inr signer)) prov yes0) \<sigma>
      else loadAccount_json E arg prov yes0 \<sigma>)"
  by (subst loadAccount.simps) simp

text \<open>
  Claim C6. \<^verbatim>\<open>loadAccount\<close> classifies in the order: the sentinel \<^verbatim>\<open>-\<close> (prompt, then
  classify what was typed), the 32-byte hex string, the valid mnemonic, the JSON wallet
  file, and otherwise the usage error. A string that passes the hex test is loaded by the
  hex-secret branch whatever the mnemonic test says of it: the mnemonic test and the
  mnemonic derivation can be replaced by anything without changing the outcome.
\<close>

theorem loadAccount_precedence:
  "(arg = Str ''-'' \<longrightarrow>
      loadAccount E arg prov yes0 \<sigma> =
        (case getPassword ''Private Key / Mnemonic:'' \<sigma> of
           (Inl e, \<sigma>') \<Rightarrow> (Inl e, \<sigma>')
         | (Inr content, \<sigma>') \<Rightarrow> loadAccount E (Str content) prov yes0 \<sigma>'))
   \<and> (arg \<noteq> Str ''-'' \<and> isHexString32 E arg \<longrightarrow>
      loadAccount E arg prov yes0 \<sigma> =
        bnd (lift (new_Wallet E arg prov)) (\<lambda>signer.
          new_WrappedSigner (signer_getAddress signer) (Settled (Inr signer)) prov yes0) \<sigma>
      \<and> loadAccount (E\<lparr>isValidMnemonic := m, Wallet_fromMnemonic := f\<rparr>) arg prov yes0 \<sigma>
          = loadAccount E arg prov yes0 \<sigma>)
   \<and> (arg \<noteq> Str ''-'' \<and> \<not> isHexString32 E arg \<and> isValidMnemonic E arg \<longrightarrow>
      loadAccount E arg prov yes0 \<sigma> =
        bnd (lift (Wallet_fromMnemonic E arg prov)) (\<lambda>signer.
          new_WrappedSigner (signer_getAddress signer) (Settled (Inr signer)) prov yes0) \<sigma>)
   \<and> (arg \<noteq> Str ''-'' \<and> \<not> isHexString32 E arg \<and> \<not> isValidMnemonic E arg
        \<and> readFileSync E arg = Inr content \<and> getJsonWalletAddress E content = Inr (Some a)
        \<and> a \<noteq> [] \<longrightarrow>
      loadAccount E arg prov yes0 \<sigma> =
        new_WrappedSigner (Inr a) (DecryptJsonWallet arg content prov) prov yes0 \<sigma>)
   \<and> (arg \<noteq> Str ''-'' \<and> \<not> isHexString32 E arg \<and> \<not> isValidMnemonic E arg
        \<and> ((\<exists>e. readFileSync E arg = Inl e \<and> message_of e \<noteq> ''cancelled''
                  \<and> message_of e \<noteq> ''wrong password'')
            \<or> (\<exists>c. readFileSync E arg = Inr c
                  \<and> (getJsonWalletAddress E c = Inr None
                      \<or> getJsonWalletAddress E c = Inr (Some [])
                      \<or> (\<exists>e. getJsonWalletAddress E c = Inl e \<and> message_of e \<noteq> ''cancelled''
                             \<and> message_of e \<noteq> ''wrong password'')))) \<longrightarrow>
      loadAccount E arg prov yes0 \<sigma> = (Inl (UsageError ''unknown account option - [REDACTED]''), \<sigma>))"
  by (auto simp: loadAccount_sentinel loadAccount_direct loadAccount_json_def bnd_def lift_def
        try_catch_def ret_def throw_def new_WrappedSigner_def Let_def)

lemmas loader_defs =
  loadAccount_sentinel loadAccount_direct loadAccount_json_def new_WrappedSigner_def

theorem loadAccount_precedence_witness:
  "signerFuncs (snd (loadAccount phrase_env (Str ''0xkey'') ex_provider True (start [] []))) 0
     = Some (Settled (Inr ex_signer))
   \<and> fst (loadAccount phrase_env (Str ''twelve words'') ex_provider True (start [] []))
     = Inl (Error ''phrase branch'')
   \<and> signerFuncs (snd (loadAccount ex_env (Str ''wallet.json'') ex_provider True (start [] []))) 0
     = Some (DecryptJsonWallet (Str ''wallet.json'') ''{...}'' ex_provider)
   \<and> fst (loadAccount ex_env (Str ''nofile'') ex_provider True (start [] []))
     = Inl (UsageError ''unknown account option - [REDACTED]'')
   \<and> signerFuncs (snd (loadAccount phrase_env (Str ''-'') ex_provider True (start [] [Some ''0xkey'']))) 0
     = Some (Settled (Inr ex_signer))"
proof -
  let ?\<sigma> = "start [] []"
  have 1: "signerFuncs (snd (loadAccount phrase_env (Str ''0xkey'') ex_provider True \<sigma>)) (next_id \<sigma>)
     = Some (Settled (Inr ex_signer))" for \<sigma>
    using loadAccount_precedence [of "Str ''0xkey''" phrase_env ex_provider True \<sigma>]
    by (simp add: phrase_env_def ex_env_def bnd_def lift_def new_WrappedSigner_def Let_def)
  have 2: "fst (loadAccount phrase_env (Str ''twelve words'') ex_provider True ?\<sigma>)
     = Inl (Error ''phrase branch'')"
    using loadAccount_precedence [of "Str ''twelve words''" phrase_env ex_provider True ?\<sigma>]
    by (simp add: phrase_env_def ex_env_def bnd_def lift_def)
  have 3: "signerFuncs (snd (loadAccount ex_env (Str ''wallet.json'') ex_provider True ?\<sigma>)) 0
     = Some (DecryptJsonWallet (Str ''wallet.json'') ''{...}'' ex_provider)"
    using loadAccount_precedence [of "Str ''wallet.json''" ex_env ex_provider True ?\<sigma> _ _
        "''{...}''" "''0xADDR''"]
    by (simp add: ex_env_def new_WrappedSigner_def Let_def start_def)
  have 4: "fst (loadAccount ex_env (Str ''nofile'') ex_provider True ?\<sigma>)
     = Inl (UsageError ''unknown account option - [REDACTED]'')"
    using loadAccount_precedence [of "Str ''nofile''" ex_env ex_provider True ?\<sigma>]
    by (simp add: ex_env_def)
  have 5: "signerFuncs (snd (loadAccount phrase_env (Str ''-'') ex_provider True
              (start [] [Some ''0xkey'']))) 0 = Some (Settled (Inr ex_signer))"
    using loadAccount_precedence [of "Str ''-''" phrase_env ex_provider True "start [] [Some ''0xkey'']"]
      1 [of "(start [] [])\<lparr>trace := [PasswordPrompt ''Private Key / Mnemonic:'']\<rparr>"]
    by (simp add: getPassword_def bnd_def emit_def start_def)
  show ?thesis using 1 [of ?\<sigma>] 2 3 4 5 by (simp add: start_def)
qed

text \<open>
  Claim C3 says that, for an identity loaded from a JSON wallet file, a wrong password
  surfaces as \<^verbatim>\<open>Incorrect password.\<close> and an aborted password prompt as \<^verbatim>\<open>Cancelled.\<close>
  The handler that maps these two errors encloses the reading of the file only; the
  decryption runs later, in the factory. Loading \<^verbatim>\<open>wallet.json\<close> and unlocking it with
  a wrong password throws \<^verbatim>\<open>wrong password\<close>, and with an aborted prompt
  \<^verbatim>\<open>cancelled\<close>, as the collaborators raised them.
\<close>

theorem wallet_decryption_errors_not_mapped:
  "fst (bnd (loadAccount ex_env (Str ''wallet.json'') ex_provider True) (unlock ex_env)
          (start [] [Some ''guess''])) = Inl (Error ''wrong password'')
   \<and> fst (bnd (loadAccount ex_env (Str ''wallet.json'') ex_provider True) (unlock ex_env)
          (start [] [None])) = Inl (Error ''cancelled'')"
  by (simp add: loader_defs run_defs ex_defs)

subsection \<open>The steps of \<^verbatim>\<open>prepareOptions\<close>, one by one\<close>







lemma truthy_Str: "truthy v \<longleftrightarrow> (\<exists>s. v = Str s \<and> s \<noteq> [])"
  by (cases v) auto





















end
